theory Spec2Isabelle
  imports Main "HOL-Library.Word" "HOL-Library.AList"
begin

text \<open>
  \<^verbatim>\<open>gen-orgchart.py\<close> turns an LDAP search result into an org chart in Graphviz DOT:
  \<^verbatim>\<open>result_to_org\<close> builds the tables of the chart from the entries, and
  \<^verbatim>\<open>gen_orgchart\<close> renders them with a Jinja2 template. This theory models the two
  functions and what they call (\<^verbatim>\<open>canonicalize_attrs\<close>, \<^verbatim>\<open>attr_s\<close>, \<^verbatim>\<open>dn_to_ident\<close>,
  \<^verbatim>\<open>title_s\<close>, \<^verbatim>\<open>name_s\<close>, \<^verbatim>\<open>snake_case\<close>, \<^verbatim>\<open>name_and_title\<close>), and proves properties
  of the normalization of entries, of the tables and of the document. The connection to
  the directory and the command line of \<^verbatim>\<open>main\<close> are outside the model.
\<close>

section \<open>Python values\<close>

text \<open>
  A Python \<^verbatim>\<open>str\<close> is the list of its Unicode code points, a \<^verbatim>\<open>bytes\<close> object the
  list of its bytes. \<open>ascii\<close> writes an ASCII literal of the source as a \<open>pystr\<close>.
\<close>

type_synonym pystr = "nat list"

type_synonym pybytes = "8 word list"

definition ascii :: "string \<Rightarrow> pystr" where
  "ascii s = map of_char s"

text \<open>
  The exceptions the modelled code can raise; \<open>DECODING_ERROR\<close> is python-ldap's
  \<^verbatim>\<open>ldap.DECODING_ERROR\<close>, raised for a string that is not a distinguished name.
\<close>

datatype error =
    RuntimeError
  | UnicodeDecodeError
  | IndexError
  | DECODING_ERROR

subsection \<open>Dictionaries\<close>

text \<open>
  A \<^verbatim>\<open>dict\<close> keeps its keys in insertion order, and the program iterates over
  \<^verbatim>\<open>depts.keys()\<close> and \<^verbatim>\<open>reports_to.keys()\<close>: a dict is the list of its items in
  that order. Assigning to a key that is present keeps its position, a new key goes
  last.
\<close>

type_synonym ('k, 'v) pydict = "('k \<times> 'v) list"

definition d_get :: "('k, 'v) pydict \<Rightarrow> 'k \<Rightarrow> 'v option" where
  "d_get d k = map_of d k"

definition d_keys :: "('k, 'v) pydict \<Rightarrow> 'k list" where
  "d_keys d = map fst d"

definition d_set :: "('k, 'v) pydict \<Rightarrow> 'k \<Rightarrow> 'v \<Rightarrow> ('k, 'v) pydict" where
  "d_set d k v = AList.update k v d"

text \<open>\<^verbatim>\<open>d.setdefault(k, []).append(x)\<close>\<close>

definition setdefault_append :: "('k, 'v list) pydict \<Rightarrow> 'k \<Rightarrow> 'v \<Rightarrow> ('k, 'v list) pydict" where
  "setdefault_append d k x = AList.map_default k [x] (\<lambda>xs. xs @ [x]) d"

subsection \<open>\<^verbatim>\<open>bytes.decode("utf-8")\<close>\<close>

text \<open>
  The strict UTF-8 decoder: one code point per well-formed sequence (shortest form,
  no surrogate, at most U+10FFFF), \<^verbatim>\<open>UnicodeDecodeError\<close> on anything else.
\<close>

definition is_cont :: "8 word \<Rightarrow> bool" where
  "is_cont b = (0x80 \<le> b \<and> b \<le> 0xBF)"

definition cont_bits :: "8 word \<Rightarrow> nat" where
  "cont_bits b = unat b mod 64"

fun decode_utf8 :: "pybytes \<Rightarrow> error + pystr" where
  "decode_utf8 [] = Inr []"
| "decode_utf8 (b # bs) =
     (if b < 0x80 then
        (case decode_utf8 bs of Inl e \<Rightarrow> Inl e | Inr cs \<Rightarrow> Inr (unat b # cs))
      else if 0xC2 \<le> b \<and> b \<le> 0xDF then
        (case bs of
           b1 # r \<Rightarrow>
             if is_cont b1 then
               (case decode_utf8 r of Inl e \<Rightarrow> Inl e
                | Inr cs \<Rightarrow> Inr (((unat b mod 32) * 64 + cont_bits b1) # cs))
             else Inl UnicodeDecodeError
         | _ \<Rightarrow> Inl UnicodeDecodeError)
      else if 0xE0 \<le> b \<and> b \<le> 0xEF then
        (case bs of
           b1 # b2 # r \<Rightarrow>
             if is_cont b1 \<and> is_cont b2 \<and> (if b = 0xE0 then 0xA0 \<le> b1 else True)
                \<and> (if b = 0xED then b1 \<le> 0x9F else True) then
               (case decode_utf8 r of Inl e \<Rightarrow> Inl e
                | Inr cs \<Rightarrow>
                    Inr (((unat b mod 16) * 4096 + cont_bits b1 * 64 + cont_bits b2) # cs))
             else Inl UnicodeDecodeError
         | _ \<Rightarrow> Inl UnicodeDecodeError)
      else if 0xF0 \<le> b \<and> b \<le> 0xF4 then
        (case bs of
           b1 # b2 # b3 # r \<Rightarrow>
             if is_cont b1 \<and> is_cont b2 \<and> is_cont b3
                \<and> (if b = 0xF0 then 0x90 \<le> b1 else True)
                \<and> (if b = 0xF4 then b1 \<le> 0x8F else True) then
               (case decode_utf8 r of Inl e \<Rightarrow> Inl e
                | Inr cs \<Rightarrow>
                    Inr (((unat b mod 8) * 262144 + cont_bits b1 * 4096
                          + cont_bits b2 * 64 + cont_bits b3) # cs))
             else Inl UnicodeDecodeError
         | _ \<Rightarrow> Inl UnicodeDecodeError)
      else Inl UnicodeDecodeError)"

section \<open>The attribute rename table\<close>

definition MAP_ATTRS :: "(pystr, pystr) pydict" where
  "MAP_ATTRS =
     [(ascii ''department'', ascii ''departmentNumber''),
      (ascii ''comment'', ascii ''description''),
      (ascii ''company'', ascii ''o''),
      (ascii ''employeeID'', ascii ''employeeNumber''),
      (ascii ''thumbnailPhoto'', ascii ''jpegPhoto''),
      (ascii ''streetaddress'', ascii ''street'')]"

section \<open>\<^verbatim>\<open>canonicalize_attrs\<close>\<close>

text \<open>
  \<^verbatim>\<open>
  for attr in entry:
      if attr in attr_map:
          entry[attr_map[attr]] = entry.pop(attr)
  return entry
  \<close>
  The loop changes the dict it iterates over, so its outcome is decided by the dict
  object and its iterator. The model follows CPython 3.8 and later.

  A dict object keeps its items in a table of entries, in insertion order, and a count
  of the entries it can still append (\<open>usable\<close>):
  \<^item> \<^verbatim>\<open>pop\<close> empties the entry of the key and leaves the table as long as it was;
  \<^item> an assignment to a key that is present overwrites its value in place;
  \<^item> an assignment to a new key appends an entry. When \<open>usable\<close> is \<open>0\<close> the table is
    rebuilt first: the emptied entries are dropped, the later ones move up, and the new
    table has the smallest power of two that is at least 8 and at least three times the
    number of items as its size, two thirds of which (rounded down) can hold entries.

  An entry of a search result is a dict that the LDAP client has built by inserting
  its attributes one by one into a new dict: no entry is empty, and \<open>built_usable n\<close>
  is the count left after \<open>n\<close> insertions.

  The iterator holds the number of items at its creation (\<open>used0\<close>), its position in
  the table and the number of keys it has still to produce (\<open>len\<close>). Each \<^verbatim>\<open>next\<close>
  \<^item> raises \<^verbatim>\<open>RuntimeError\<close> (dictionary changed size during iteration) when the dict
    no longer has \<open>used0\<close> items;
  \<^item> otherwise moves to the first filled entry at or after its position and ends the
    loop when there is none;
  \<^item> raises \<^verbatim>\<open>RuntimeError\<close> (dictionary keys changed during iteration) when it finds a
    key although \<open>len\<close> is used up.
  A rebuilt table leaves the position of the iterator as it is, so the iterator skips
  the key that has moved up into the place it has just left.
\<close>

type_synonym ('k, 'v) table = "('k \<times> 'v) option list"

record ('k, 'v) dictobj =
  entries :: "('k, 'v) table"
  usable :: nat

definition live :: "('k, 'v) table \<Rightarrow> ('k, 'v) pydict" where
  "live t = List.map_filter id t"

function pow2_from :: "nat \<Rightarrow> nat \<Rightarrow> nat" where
  "pow2_from s m = (if s = 0 \<or> m \<le> s then s else pow2_from (2 * s) m)"
  by pat_completeness auto
termination
  by (relation "measure (\<lambda>(s, m). m - s)") auto

definition keysize :: "nat \<Rightarrow> nat" where
  "keysize minsize = pow2_from 8 minsize"

definition usable_fraction :: "nat \<Rightarrow> nat" where
  "usable_fraction n = (2 * n) div 3"

fun built_usable :: "nat \<Rightarrow> nat" where
  "built_usable 0 = 0"
| "built_usable (Suc n) =
     (let u = built_usable n
      in (if u = 0 then usable_fraction (keysize (3 * n)) - n else u) - 1)"

definition dict_of_items :: "('k, 'v) pydict \<Rightarrow> ('k, 'v) dictobj" where
  "dict_of_items items = \<lparr>entries = map Some items, usable = built_usable (length items)\<rparr>"

fun next_entry :: "('k, 'v) table \<Rightarrow> nat \<Rightarrow> (nat \<times> 'k \<times> 'v) option" where
  "next_entry [] pos = None"
| "next_entry (None # t) pos =
     (case pos of
        0 \<Rightarrow> map_option (\<lambda>(i, kv). (Suc i, kv)) (next_entry t 0)
      | Suc p \<Rightarrow> map_option (\<lambda>(i, kv). (Suc i, kv)) (next_entry t p))"
| "next_entry (Some kv # t) pos =
     (case pos of
        0 \<Rightarrow> Some (0, kv)
      | Suc p \<Rightarrow> map_option (\<lambda>(i, kv). (Suc i, kv)) (next_entry t p))"

text \<open>The value of a key that is present is overwritten where it stands.\<close>

fun overwrite :: "('k, 'v) table \<Rightarrow> 'k \<Rightarrow> 'v \<Rightarrow> ('k, 'v) table" where
  "overwrite [] k v = []"
| "overwrite (None # t) k v = None # overwrite t k v"
| "overwrite (Some (k', v') # t) k v =
     (if k' = k then Some (k, v) # t else Some (k', v') # overwrite t k v)"

definition rebuild :: "('k, 'v) dictobj \<Rightarrow> ('k, 'v) dictobj" where
  "rebuild d =
     (let items = live (entries d); used = length items
      in \<lparr>entries = map Some items,
          usable = usable_fraction (keysize (3 * used)) - used\<rparr>)"

definition dict_pop_at :: "('k, 'v) dictobj \<Rightarrow> nat \<Rightarrow> ('k, 'v) dictobj" where
  "dict_pop_at d i = d\<lparr>entries := (entries d)[i := None]\<rparr>"

definition dict_setitem :: "('k, 'v) dictobj \<Rightarrow> 'k \<Rightarrow> 'v \<Rightarrow> ('k, 'v) dictobj" where
  "dict_setitem d k v =
     (if k \<in> set (d_keys (live (entries d)))
      then d\<lparr>entries := overwrite (entries d) k v\<rparr>
      else
        (let d1 = (if usable d = 0 then rebuild d else d)
         in d1\<lparr>entries := entries d1 @ [Some (k, v)], usable := usable d1 - 1\<rparr>))"

fun canon_loop ::
  "(pystr, pystr) pydict \<Rightarrow> nat \<Rightarrow> (pystr, 'v) dictobj \<Rightarrow> nat \<Rightarrow> nat
   \<Rightarrow> error + (pystr, 'v) dictobj"
where
  "canon_loop attr_map used0 d pos len =
     (if length (live (entries d)) \<noteq> used0 then Inl RuntimeError
      else
        (case next_entry (entries d) pos of
           None \<Rightarrow> Inr d
         | Some (i, attr, v) \<Rightarrow>
             (case len of
                0 \<Rightarrow> Inl RuntimeError
              | Suc len' \<Rightarrow>
                  (case d_get attr_map attr of
                     None \<Rightarrow> canon_loop attr_map used0 d (Suc i) len'
                   | Some attr' \<Rightarrow>
                       canon_loop attr_map used0 (dict_setitem (dict_pop_at d i) attr' v)
                         (Suc i) len'))))"

definition canonicalize_attrs ::
  "(pystr, 'v) pydict \<Rightarrow> (pystr, pystr) pydict \<Rightarrow> error + (pystr, 'v) pydict"
where
  "canonicalize_attrs entry attr_map =
     (case canon_loop attr_map (length entry) (dict_of_items entry) 0 (length entry) of
        Inl e \<Rightarrow> Inl e
      | Inr d \<Rightarrow> Inr (live (entries d)))"

section \<open>\<^verbatim>\<open>attr_s\<close>\<close>

type_synonym entry = "(pystr, pybytes list) pydict"

definition attr_s :: "entry \<Rightarrow> pystr \<Rightarrow> error + pystr" where
  "attr_s entry attr_name =
     (case d_get entry attr_name of
        Some (v # _) \<Rightarrow> decode_utf8 v
      | _ \<Rightarrow> Inr [])"

declare canon_loop.simps [simp del]

section \<open>\<^verbatim>\<open>result_to_org\<close>\<close>

text \<open>
  What one pass of the loop reads from an entry (lines 226 to 235): the entry is
  canonicalized, then \<^verbatim>\<open>displayName\<close>, \<^verbatim>\<open>title\<close>, \<^verbatim>\<open>manager\<close> and
  \<^verbatim>\<open>departmentNumber\<close> are read with \<open>attr_s\<close>, in this order. The first exception
  ends the pass.
\<close>

record person =
  p_display_name :: pystr
  p_title :: pystr
  p_mgr :: pystr
  p_dept :: pystr

definition normalizer :: "entry \<Rightarrow> error + person" where
  "normalizer entry0 =
     (case canonicalize_attrs entry0 MAP_ATTRS of Inl e \<Rightarrow> Inl e | Inr entry \<Rightarrow>
     (case attr_s entry (ascii ''displayName'') of Inl e \<Rightarrow> Inl e | Inr name \<Rightarrow>
     (case attr_s entry (ascii ''title'') of Inl e \<Rightarrow> Inl e | Inr title \<Rightarrow>
     (case attr_s entry (ascii ''manager'') of Inl e \<Rightarrow> Inl e | Inr mgr \<Rightarrow>
     (case attr_s entry (ascii ''departmentNumber'') of Inl e \<Rightarrow> Inl e | Inr dept \<Rightarrow>
        Inr \<lparr>p_display_name = name, p_title = title, p_mgr = mgr, p_dept = dept\<rparr>)))))"

text \<open>The dict that \<open>result_to_org\<close> returns, one field per key.\<close>

record org =
  reports_to :: "(pystr, pystr list) pydict"
  depts :: "(pystr, pystr list) pydict"
  dept_of :: "(pystr, pystr) pydict"
  title_of :: "(pystr, pystr) pydict"
  mgr_of :: "(pystr, pystr) pydict"
  display_name :: "(pystr, pystr) pydict"

definition empty_org :: org where
  "empty_org =
     \<lparr>reports_to = [], depts = [], dept_of = [], title_of = [], mgr_of = [],
      display_name = []\<rparr>"

text \<open>
  The body of the loop for one \<open>(dn, entry)\<close> with \<open>dn\<close> not \<^verbatim>\<open>None\<close>, statement by
  statement. An exception leaves the function, so the tables built so far are lost.
\<close>

definition org_entry :: "org \<Rightarrow> pystr \<Rightarrow> entry \<Rightarrow> error + org" where
  "org_entry org0 dn entry0 =
     (case canonicalize_attrs entry0 MAP_ATTRS of Inl e \<Rightarrow> Inl e | Inr entry \<Rightarrow>
     (case attr_s entry (ascii ''displayName'') of Inl e \<Rightarrow> Inl e | Inr name \<Rightarrow>
     (let org1 = org0\<lparr>display_name := d_set (display_name org0) dn name\<rparr> in
     (case attr_s entry (ascii ''title'') of Inl e \<Rightarrow> Inl e | Inr title \<Rightarrow>
     (case attr_s entry (ascii ''manager'') of Inl e \<Rightarrow> Inl e | Inr mgr \<Rightarrow>
     (let org2 =
        (if mgr \<noteq> [] then
           org1\<lparr>mgr_of := d_set (mgr_of org1) dn mgr,
                reports_to := setdefault_append (reports_to org1) mgr dn\<rparr>
         else org1) in
     (case attr_s entry (ascii ''departmentNumber'') of Inl e \<Rightarrow> Inl e | Inr dept \<Rightarrow>
     (let org3 =
        (if dept \<noteq> [] then
           org2\<lparr>depts := setdefault_append (depts org2) dept dn,
                dept_of := d_set (dept_of org2) dn dept\<rparr>
         else org2) in
      Inr (org3\<lparr>title_of := d_set (title_of org3) dn title\<rparr>)))))))))"

fun org_loop :: "org \<Rightarrow> (pystr option \<times> entry) list \<Rightarrow> error + org" where
  "org_loop org0 [] = Inr org0"
| "org_loop org0 ((None, entry) # result) = org_loop org0 result"
| "org_loop org0 ((Some dn, entry) # result) =
     (case org_entry org0 dn entry of
        Inl e \<Rightarrow> Inl e
      | Inr org1 \<Rightarrow> org_loop org1 result)"

definition result_to_org ::
  "(pystr option \<times> entry) list
   \<Rightarrow> ((pystr option \<times> entry) list \<Rightarrow> (pystr option \<times> entry) list) option
   \<Rightarrow> error + org"
where
  "result_to_org result0 preprocess =
     (let result = (case preprocess of Some f \<Rightarrow> f result0 | None \<Rightarrow> result0)
      in org_loop empty_org result)"

subsection \<open>The Builder on canonical records\<close>

text \<open>
  The table updates of one pass, given what the pass read; \<open>build\<close> runs them over a
  sequence of records \<open>(dn, person)\<close> from the empty tables. \<open>records_of\<close> is the
  record sequence of a search result: the entries with a \<open>dn\<close>, normalized.
\<close>

definition add_record :: "org \<Rightarrow> pystr \<times> person \<Rightarrow> org" where
  "add_record org0 r =
     (let dn = fst r; p = snd r;
          org1 = org0\<lparr>display_name := d_set (display_name org0) dn (p_display_name p)\<rparr>;
          org2 =
            (if p_mgr p \<noteq> [] then
               org1\<lparr>mgr_of := d_set (mgr_of org1) dn (p_mgr p),
                    reports_to := setdefault_append (reports_to org1) (p_mgr p) dn\<rparr>
             else org1);
          org3 =
            (if p_dept p \<noteq> [] then
               org2\<lparr>depts := setdefault_append (depts org2) (p_dept p) dn,
                    dept_of := d_set (dept_of org2) dn (p_dept p)\<rparr>
             else org2)
      in org3\<lparr>title_of := d_set (title_of org3) dn (p_title p)\<rparr>)"

definition build_from :: "org \<Rightarrow> (pystr \<times> person) list \<Rightarrow> org" where
  "build_from org0 recs = foldl add_record org0 recs"

definition build :: "(pystr \<times> person) list \<Rightarrow> org" where
  "build recs = build_from empty_org recs"

fun records_of :: "(pystr option \<times> entry) list \<Rightarrow> error + (pystr \<times> person) list" where
  "records_of [] = Inr []"
| "records_of ((None, entry) # result) = records_of result"
| "records_of ((Some dn, entry) # result) =
     (case normalizer entry of
        Inl e \<Rightarrow> Inl e
      | Inr p \<Rightarrow>
          (case records_of result of
             Inl e \<Rightarrow> Inl e
           | Inr recs \<Rightarrow> Inr ((dn, p) # recs)))"

section \<open>The renderer\<close>

text \<open>
  What the program uses of python-ldap and of the interpreter's Unicode database:
  \<^item> \<open>explode_dn dn\<close> is \<^verbatim>\<open>ldap.dn.explode_dn(dn, 1)\<close>, a list of strings or an
    exception;
  \<^item> \<open>uni_isalnum c\<close> says whether the code point \<open>c\<close>, beyond ASCII, is alphanumeric;
  \<^item> \<open>uni_lower s\<close> is \<^verbatim>\<open>s.lower()\<close> for a string \<open>s\<close> that is not all ASCII.
  The definitions below take them as a parameter \<open>L\<close>.
\<close>

record pylib =
  explode_dn :: "pystr \<Rightarrow> error + pystr list"
  uni_isalnum :: "nat \<Rightarrow> bool"
  uni_lower :: "pystr \<Rightarrow> pystr"

definition dn_to_ident :: "pylib \<Rightarrow> pystr \<Rightarrow> error + pystr" where
  "dn_to_ident L dn_str =
     (case explode_dn L dn_str of
        Inl e \<Rightarrow> Inl e
      | Inr [] \<Rightarrow> Inl IndexError
      | Inr (c # _) \<Rightarrow> Inr c)"

definition title_s :: "pystr \<Rightarrow> (pystr, pystr) pydict \<Rightarrow> pystr" where
  "title_s dn titles =
     (case d_get titles dn of
        Some t \<Rightarrow> t
      | None \<Rightarrow> ascii ''(missing from database)'')"

text \<open>
  \<^verbatim>\<open>display_name.get(dn, dn_to_ident(dn))\<close>: the default is an argument of the call,
  so \<open>dn_to_ident\<close> runs, and can raise, whether or not \<open>dn\<close> is a key.
\<close>

definition name_s :: "pylib \<Rightarrow> pystr \<Rightarrow> (pystr, pystr) pydict \<Rightarrow> error + pystr" where
  "name_s L dn names =
     (case dn_to_ident L dn of
        Inl e \<Rightarrow> Inl e
      | Inr ident \<Rightarrow>
          Inr (case d_get names dn of Some n \<Rightarrow> n | None \<Rightarrow> ident))"

subsection \<open>\<^verbatim>\<open>snake_case\<close>\<close>

definition ascii_isalnum :: "nat \<Rightarrow> bool" where
  "ascii_isalnum c = ((48 \<le> c \<and> c \<le> 57) \<or> (65 \<le> c \<and> c \<le> 90) \<or> (97 \<le> c \<and> c \<le> 122))"

text \<open>\<^verbatim>\<open>\w\<close> on a \<^verbatim>\<open>str\<close>: alphanumeric or the underscore; \<^verbatim>\<open>\W\<close> is its complement.\<close>

definition is_word :: "pylib \<Rightarrow> nat \<Rightarrow> bool" where
  "is_word L c = (c = 95 \<or> (if c < 128 then ascii_isalnum c else uni_isalnum L c))"

text \<open>
  \<^verbatim>\<open>re.sub(C+, repl, s)\<close> for a character class \<open>C\<close>: scanning from the left, the
  first character in \<open>C\<close> starts a match, the match takes every following character in
  \<open>C\<close>, \<open>repl\<close> stands for it and the scan goes on behind it.
\<close>

function re_sub_plus :: "(nat \<Rightarrow> bool) \<Rightarrow> pystr \<Rightarrow> pystr \<Rightarrow> pystr" where
  "re_sub_plus C repl [] = []"
| "re_sub_plus C repl (c # s) =
     (if C c then repl @ re_sub_plus C repl (dropWhile C s)
      else c # re_sub_plus C repl s)"
  by pat_completeness auto
termination
  by (relation "measure (\<lambda>(C, repl, s). length s)")
    (auto simp: le_imp_less_Suc length_dropWhile_le)

text \<open>\<^verbatim>\<open>s.strip(chars)\<close>\<close>

definition py_strip :: "pystr \<Rightarrow> pystr \<Rightarrow> pystr" where
  "py_strip chars s =
     rev (dropWhile (\<lambda>c. c \<in> set chars) (rev (dropWhile (\<lambda>c. c \<in> set chars) s)))"

text \<open>\<^verbatim>\<open>s.lower()\<close>\<close>

definition py_lower :: "pylib \<Rightarrow> pystr \<Rightarrow> pystr" where
  "py_lower L s =
     (if list_all (\<lambda>c. c < 128) s
      then map (\<lambda>c. if 65 \<le> c \<and> c \<le> 90 then c + 32 else c) s
      else uni_lower L s)"

definition snake_case :: "pylib \<Rightarrow> pystr \<Rightarrow> pystr" where
  "snake_case L s =
     py_lower L (py_strip (ascii ''_'') (re_sub_plus (\<lambda>c. \<not> is_word L c) (ascii ''_'') s))"

subsection \<open>\<^verbatim>\<open>name_and_title\<close>\<close>

definition name_and_title ::
  "pylib \<Rightarrow> pystr \<Rightarrow> (pystr, pystr) pydict \<Rightarrow> (pystr, pystr) pydict \<Rightarrow> error + pystr"
where
  "name_and_title L dn names titles =
     (case name_s L dn names of
        Inl e \<Rightarrow> Inl e
      | Inr n \<Rightarrow> Inr (n @ [10] @ title_s dn titles))"

subsection \<open>\<^verbatim>\<open>gen_orgchart\<close> on \<^verbatim>\<open>ORGCHART_TEMPLATE_STR\<close>\<close>

text \<open>
  The template is rendered by Jinja2's default \<^verbatim>\<open>Environment()\<close>: no autoescaping, the
  newline after a block tag is kept, a \<^verbatim>\<open>{%-\<close> removes the whitespace in front of the
  tag, and the single newline at the end of the template is dropped.

  \<^verbatim>\<open>stream(org).dump(fh)\<close> writes the document piece by piece, in template order: each
  stretch of template text and each value of an expression is written when it has been
  produced (Jinja2 2.11 and later). A piece is a string, or the exception of the filter
  call that should have produced it; the first exception ends the rendering, and the
  file keeps what has been written before. \<open>nl\<close> is the line feed and \<open>dq\<close> the double
  quote.
\<close>

definition nl :: nat where
  "nl = 10"

definition dq :: nat where
  "dq = 34"

fun write_all :: "(error + pystr) list \<Rightarrow> pystr \<times> error option" where
  "write_all [] = ([], None)"
| "write_all (Inl e # ps) = ([], Some e)"
| "write_all (Inr s # ps) = (case write_all ps of (t, r) \<Rightarrow> (s @ t, r))"

text \<open>The text before the first \<^verbatim>\<open>{% for %}\<close> and the text after the last \<^verbatim>\<open>{% endfor %}\<close>.\<close>

definition header :: pystr where
  "header =
     nl # ascii ''strict digraph orgchart {'' @
     nl # ascii ''  fontsize = 10;'' @
     nl # ascii ''  fontname = '' @ dq # ascii ''Helvetica'' @ dq # ascii '';'' @
     nl # ascii ''  node ['' @
     nl # ascii ''    shape = box,'' @
     nl # ascii ''    fontname = '' @ dq # ascii ''Helvetica'' @ dq # ascii '','' @
     nl # ascii ''    fontsize = 10'' @
     nl # ascii ''  ];'' @
     nl # ascii ''  ''"

definition footer :: pystr where
  "footer = nl # ascii ''}'' @ [nl]"

text \<open>\<^verbatim>\<open>depts[dept]\<close> and \<^verbatim>\<open>reports_to[mgr_dn]\<close>: a missing key would be an undefined
  value, which a \<^verbatim>\<open>for\<close> iterates as the empty sequence.\<close>

definition getitem_seq :: "('k, 'v list) pydict \<Rightarrow> 'k \<Rightarrow> 'v list" where
  "getitem_seq d k = (case d_get d k of Some xs \<Rightarrow> xs | None \<Rightarrow> [])"

text \<open>One pass of \<^verbatim>\<open>{%- for dn in depts[dept] %}\<close>.\<close>

definition member_line :: "pylib \<Rightarrow> org \<Rightarrow> pystr \<Rightarrow> (error + pystr) list" where
  "member_line L org0 dn =
     [Inr (nl # ascii ''    '' @ [dq]),
      name_and_title L dn (display_name org0) (title_of org0),
      Inr (dq # ascii '';'')]"

text \<open>One pass of \<^verbatim>\<open>{% for dept in depts.keys() %}\<close>.\<close>

definition cluster :: "pylib \<Rightarrow> org \<Rightarrow> pystr \<Rightarrow> (error + pystr) list" where
  "cluster L org0 dept =
     [Inr (nl # ascii ''  subgraph cluster_''),
      Inr (snake_case L dept),
      Inr (ascii '' {'' @ nl # ascii ''    label = '' @ [dq]),
      Inr dept,
      Inr (dq # ascii '';'')]
     @ concat (map (member_line L org0) (getitem_seq (depts org0) dept))
     @ [Inr (nl # ascii ''  }'' @ nl # ascii ''  '')]"

text \<open>One pass of \<^verbatim>\<open>{%- for dn in reports_to[mgr_dn] %}\<close>.\<close>

definition target_line :: "pylib \<Rightarrow> org \<Rightarrow> pystr \<Rightarrow> (error + pystr) list" where
  "target_line L org0 dn =
     [Inr (nl # ascii ''    '' @ [dq]),
      name_and_title L dn (display_name org0) (title_of org0),
      Inr [dq]]"

text \<open>One pass of \<^verbatim>\<open>{%- for mgr_dn in reports_to.keys() %}\<close>.\<close>

definition edge_group :: "pylib \<Rightarrow> org \<Rightarrow> pystr \<Rightarrow> (error + pystr) list" where
  "edge_group L org0 mgr_dn =
     [Inr (nl # ascii ''  '' @ [dq]),
      name_and_title L mgr_dn (display_name org0) (title_of org0),
      Inr (dq # ascii '' -> {'')]
     @ concat (map (target_line L org0) (getitem_seq (reports_to org0) mgr_dn))
     @ [Inr (nl # ascii ''  }'' @ nl # ascii ''  '')]"

text \<open>The pieces of the whole template.\<close>

definition render :: "pylib \<Rightarrow> org \<Rightarrow> (error + pystr) list" where
  "render L org0 =
     Inr header
     # concat (map (cluster L org0) (d_keys (depts org0)))
     @ concat (map (edge_group L org0) (d_keys (reports_to org0)))
     @ [Inr footer]"

text \<open>
  \<open>gen_orgchart L fh org\<close>: \<open>fh\<close> is what the output file holds before the call; the
  result is what it holds afterwards, and the exception if the call has raised one.
\<close>

definition gen_orgchart :: "pylib \<Rightarrow> pystr \<Rightarrow> org \<Rightarrow> pystr \<times> error option" where
  "gen_orgchart L fh org0 = (case write_all (render L org0) of (doc, r) \<Rightarrow> (fh @ doc, r))"

text \<open>
  The last step of \<^verbatim>\<open>main\<close>: the output file is opened for writing, which makes it
  empty, then \<open>result_to_org\<close> runs, then \<open>gen_orgchart\<close>. The result is what the file
  holds in the end, and the exception if one has been raised.
\<close>

definition chart_of :: "pylib \<Rightarrow> (pystr option \<times> entry) list \<Rightarrow> pystr \<times> error option" where
  "chart_of L result =
     (case result_to_org result None of
        Inl e \<Rightarrow> ([], Some e)
      | Inr org0 \<Rightarrow> gen_orgchart L [] org0)"

subsection \<open>A library instance for plain input\<close>

text \<open>
  For evaluating the renderer on concrete input: \<open>explode_dn_plain\<close> is
  \<^verbatim>\<open>explode_dn(dn, 1)\<close> on the distinguished names whose components are
  \<^verbatim>\<open>type=value\<close> with
  \<^item> a type that is an ASCII letter followed by ASCII letters, digits and hyphens, and
  \<^item> a value of ASCII letters, digits, spaces, dots and hyphens that neither begins
    nor ends with a space,
  where the library returns the values. On the empty string the library returns the
  empty list. Every other string is outside this fragment and is given \<open>DECODING_ERROR\<close>
  here, which the library raises only for the ill-formed ones: \<open>plain_lib\<close> stands for
  the library on the fragment and nowhere else. The Unicode tables of \<open>plain_lib\<close> are
  never consulted on ASCII text.
\<close>

fun split_on :: "nat \<Rightarrow> pystr \<Rightarrow> pystr list" where
  "split_on sep [] = [[]]"
| "split_on sep (c # s) =
     (if c = sep then [] # split_on sep s
      else (case split_on sep s of
              [] \<Rightarrow> [[c]]
            | w # ws \<Rightarrow> (c # w) # ws))"

definition ascii_isalpha :: "nat \<Rightarrow> bool" where
  "ascii_isalpha c = ((65 \<le> c \<and> c \<le> 90) \<or> (97 \<le> c \<and> c \<le> 122))"

definition plain_type :: "pystr \<Rightarrow> bool" where
  "plain_type ty =
     (case ty of
        [] \<Rightarrow> False
      | c # cs \<Rightarrow> ascii_isalpha c \<and> list_all (\<lambda>c. ascii_isalnum c \<or> c = 45) cs)"

definition plain_value :: "pystr \<Rightarrow> bool" where
  "plain_value v =
     (case v of
        [] \<Rightarrow> False
      | c # cs \<Rightarrow>
          c \<noteq> 32 \<and> last v \<noteq> 32
          \<and> list_all (\<lambda>c. ascii_isalnum c \<or> c = 32 \<or> c = 45 \<or> c = 46) v)"

definition plain_rdn :: "pystr \<Rightarrow> bool" where
  "plain_rdn r =
     (let ty = takeWhile (\<lambda>c. c \<noteq> 61) r
      in length ty < length r \<and> plain_type ty \<and> plain_value (drop (Suc (length ty)) r))"

definition explode_dn_plain :: "pystr \<Rightarrow> error + pystr list" where
  "explode_dn_plain dn =
     (if dn = [] then Inr []
      else if list_all plain_rdn (split_on 44 dn)
      then Inr (map (\<lambda>r. drop (Suc (length (takeWhile (\<lambda>c. c \<noteq> 61) r))) r) (split_on 44 dn))
      else Inl DECODING_ERROR)"

definition plain_lib :: pylib where
  "plain_lib =
     \<lparr>explode_dn = explode_dn_plain, uni_isalnum = (\<lambda>c. False), uni_lower = (\<lambda>s. s)\<rparr>"

section \<open>Notions of the specification\<close>

text \<open>The elements of a sequence in the order of their first appearance.\<close>

definition first_seen :: "'a list \<Rightarrow> 'a list" where
  "first_seen xs = rev (remdups (rev xs))"

text \<open>
  The cluster identifier in the words of the specification: every maximal run of
  non-word characters is replaced by one underscore, leading and trailing underscores
  are stripped, and the result is lowercased. \<open>runs P s\<close> cuts \<open>s\<close> into its maximal
  blocks of characters on which \<open>P\<close> has the same value, each with that value.
  \<open>strip_underscores\<close> drops the leading underscores and then cuts as many characters
  off the end as there are underscores at the end.
\<close>

fun runs :: "('a \<Rightarrow> bool) \<Rightarrow> 'a list \<Rightarrow> (bool \<times> 'a list) list" where
  "runs P [] = []"
| "runs P (c # s) =
     (case runs P s of
        [] \<Rightarrow> [(P c, [c])]
      | (b, r) # rs \<Rightarrow> if b = P c then (b, c # r) # rs else (P c, [c]) # (b, r) # rs)"

definition replace_nonword_runs :: "pylib \<Rightarrow> pystr \<Rightarrow> pystr" where
  "replace_nonword_runs L s =
     concat (map (\<lambda>(w, r). if w then r else ascii ''_'') (runs (is_word L) s))"

definition strip_underscores :: "pystr \<Rightarrow> pystr" where
  "strip_underscores s =
     (let t = dropWhile (\<lambda>c. c = 95) s
      in take (length t - length (takeWhile (\<lambda>c. c = 95) (rev t))) t)"

definition cluster_id :: "pylib \<Rightarrow> pystr \<Rightarrow> pystr" where
  "cluster_id L dept = py_lower L (strip_underscores (replace_nonword_runs L dept))"

text \<open>
  The document in terms of the records. A node label is a name, a line feed and a
  title. A cluster is the \<^verbatim>\<open>subgraph\<close> line with the cluster identifier of the
  department, the \<^verbatim>\<open>label\<close> line with the department, one quoted node label with a
  semicolon for each member, and the closing brace; an edge group is the quoted label
  of the manager with the arrow, one quoted label for each report, and the closing
  brace.
\<close>

definition record_label :: "person \<Rightarrow> pystr" where
  "record_label p = p_display_name p @ nl # p_title p"

definition cluster_text :: "pylib \<Rightarrow> pystr \<Rightarrow> pystr list \<Rightarrow> pystr" where
  "cluster_text L d labels =
     nl # ascii ''  subgraph cluster_'' @ snake_case L d @ ascii '' {'' @
     nl # ascii ''    label = '' @ dq # d @ dq # ascii '';'' @
     concat (map (\<lambda>l. nl # ascii ''    '' @ dq # l @ dq # ascii '';'') labels) @
     nl # ascii ''  }'' @
     nl # ascii ''  ''"

definition group_text :: "pystr \<Rightarrow> pystr list \<Rightarrow> pystr" where
  "group_text mgr_label labels =
     nl # ascii ''  '' @ dq # mgr_label @ dq # ascii '' -> {'' @
     concat (map (\<lambda>l. nl # ascii ''    '' @ dq # l @ [dq]) labels) @
     nl # ascii ''  }'' @
     nl # ascii ''  ''"

text \<open>
  The label of an identifier, given the records: name and title of its last record,
  or, when it has no record, the first component of the identifier and the title
  \<^verbatim>\<open>(missing from database)\<close>.
\<close>

definition first_component :: "pylib \<Rightarrow> pystr \<Rightarrow> pystr" where
  "first_component L dn = (case explode_dn L dn of Inr (c # cs) \<Rightarrow> c | _ \<Rightarrow> [])"

definition node_label :: "pylib \<Rightarrow> (pystr \<times> person) list \<Rightarrow> pystr \<Rightarrow> pystr" where
  "node_label L recs dn =
     (case map_of (rev recs) dn of
        Some p \<Rightarrow> record_label p
      | None \<Rightarrow> first_component L dn @ nl # ascii ''(missing from database)'')"

definition clusters_text :: "pylib \<Rightarrow> (pystr \<times> person) list \<Rightarrow> pystr" where
  "clusters_text L recs =
     concat (map (\<lambda>d. cluster_text L d
                         (map (\<lambda>r. node_label L recs (fst r))
                            (filter (\<lambda>r. p_dept (snd r) = d) recs)))
               (first_seen (filter (\<lambda>d. d \<noteq> []) (map (\<lambda>r. p_dept (snd r)) recs))))"

definition groups_text :: "pylib \<Rightarrow> (pystr \<times> person) list \<Rightarrow> pystr" where
  "groups_text L recs =
     concat (map (\<lambda>m. group_text (node_label L recs m)
                         (map (\<lambda>r. node_label L recs (fst r))
                            (filter (\<lambda>r. p_mgr (snd r) = m) recs)))
               (first_seen (filter (\<lambda>m. m \<noteq> []) (map (\<lambda>r. p_mgr (snd r)) recs))))"

definition document :: "pylib \<Rightarrow> (pystr \<times> person) list \<Rightarrow> pystr" where
  "document L recs = header @ clusters_text L recs @ groups_text L recs @ footer"

text \<open>\<open>explode_dn\<close> returns at least one component for the identifier.\<close>

definition has_component :: "pylib \<Rightarrow> pystr \<Rightarrow> bool" where
  "has_component L dn = (case explode_dn L dn of Inr (c # cs) \<Rightarrow> True | _ \<Rightarrow> False)"

section \<open>Example inputs\<close>

definition ascii_bytes :: "string \<Rightarrow> pybytes" where
  "ascii_bytes s = map of_char s"

definition person_of :: "string \<Rightarrow> string \<Rightarrow> string \<Rightarrow> string \<Rightarrow> person" where
  "person_of name title mgr dept =
     \<lparr>p_display_name = ascii name, p_title = ascii title, p_mgr = ascii mgr, p_dept = ascii dept\<rparr>"

text \<open>The scenario of the specification, with a result that is not an entry in between.\<close>

definition scenario :: "(pystr option \<times> entry) list" where
  "scenario =
     [(Some (ascii ''cn=a''),
       [(ascii ''displayName'', [ascii_bytes ''Alice'']),
        (ascii ''title'', [ascii_bytes ''Dev'']),
        (ascii ''manager'', [ascii_bytes ''cn=b'']),
        (ascii ''departmentNumber'', [ascii_bytes ''Eng''])]),
      (None, []),
      (Some (ascii ''cn=b''),
       [(ascii ''displayName'', [ascii_bytes ''Bob'']),
        (ascii ''title'', [ascii_bytes ''Mgr'']),
        (ascii ''departmentNumber'', [ascii_bytes ''Eng''])])]"

text \<open>
  A result in which \<^verbatim>\<open>cn=a\<close> comes twice: first as an entry with the five attributes
  of the Active Directory schema, then with an empty title.
\<close>

definition repeated :: "(pystr option \<times> entry) list" where
  "repeated =
     [(Some (ascii ''cn=a''),
       [(ascii ''displayName'', [ascii_bytes ''Alice'']),
        (ascii ''title'', [ascii_bytes ''Dev'']),
        (ascii ''manager'', [ascii_bytes ''cn=b'']),
        (ascii ''department'', [ascii_bytes ''Eng'']),
        (ascii ''company'', [ascii_bytes ''Acme''])]),
      (Some (ascii ''cn=b''),
       [(ascii ''displayName'', [ascii_bytes ''Bob'']),
        (ascii ''title'', [ascii_bytes ''Mgr''])]),
      (Some (ascii ''cn=a''),
       [(ascii ''displayName'', [ascii_bytes ''Alicia'']),
        (ascii ''title'', []),
        (ascii ''manager'', [ascii_bytes ''cn=b''])])]"

text \<open>Two entries with attribute names of the Active Directory schema.\<close>

definition ad_entry :: "string \<Rightarrow> string \<Rightarrow> string \<Rightarrow> string \<Rightarrow> entry" where
  "ad_entry name title company dept =
     [(ascii ''displayName'', [ascii_bytes name]),
      (ascii ''title'', [ascii_bytes title]),
      (ascii ''company'', [ascii_bytes company]),
      (ascii ''department'', [ascii_bytes dept])]"

definition ad_result :: "(pystr option \<times> entry) list" where
  "ad_result =
     [(Some (ascii ''cn=a''), ad_entry ''Alice'' ''Dev'' ''Acme'' ''Eng''),
      (Some (ascii ''cn=b''), ad_entry ''Bob'' ''Mgr'' ''Acme'' ''Eng'')]"

text \<open>The org model and the chart of the scenario.\<close>

definition scenario_org :: org where
  "scenario_org =
     \<lparr>reports_to = [(ascii ''cn=b'', [ascii ''cn=a''])],
      depts = [(ascii ''Eng'', [ascii ''cn=a'', ascii ''cn=b''])],
      dept_of = [(ascii ''cn=a'', ascii ''Eng''), (ascii ''cn=b'', ascii ''Eng'')],
      title_of = [(ascii ''cn=a'', ascii ''Dev''), (ascii ''cn=b'', ascii ''Mgr'')],
      mgr_of = [(ascii ''cn=a'', ascii ''cn=b'')],
      display_name = [(ascii ''cn=a'', ascii ''Alice''), (ascii ''cn=b'', ascii ''Bob'')]\<rparr>"

definition scenario_doc :: pystr where
  "scenario_doc =
     header @
     nl # ascii ''  subgraph cluster_eng {'' @
     nl # ascii ''    label = '' @ dq # ascii ''Eng'' @ dq # ascii '';'' @
     nl # ascii ''    '' @ dq # ascii ''Alice'' @ nl # ascii ''Dev'' @ dq # ascii '';'' @
     nl # ascii ''    '' @ dq # ascii ''Bob'' @ nl # ascii ''Mgr'' @ dq # ascii '';'' @
     nl # ascii ''  }'' @
     nl # ascii ''  '' @
     nl # ascii ''  '' @ dq # ascii ''Bob'' @ nl # ascii ''Mgr'' @ dq # ascii '' -> {'' @
     nl # ascii ''    '' @ dq # ascii ''Alice'' @ nl # ascii ''Dev'' @ [dq] @
     nl # ascii ''  }'' @
     nl # ascii ''  '' @
     footer"

text \<open>Two departments that differ in case and punctuation only.\<close>

definition collide :: "(pystr option \<times> entry) list" where
  "collide =
     [(Some (ascii ''cn=a''),
       [(ascii ''displayName'', [ascii_bytes ''Ann'']),
        (ascii ''title'', [ascii_bytes ''Dev'']),
        (ascii ''departmentNumber'', [ascii_bytes ''R&D''])]),
      (Some (ascii ''cn=b''),
       [(ascii ''displayName'', [ascii_bytes ''Ben'']),
        (ascii ''title'', [ascii_bytes ''Ops'']),
        (ascii ''departmentNumber'', [ascii_bytes ''r d''])])]"

section \<open>Renaming attributes\<close>

lemma live_map_Some: "live (map Some e) = e"
  by (induction e) (simp_all add: live_def List.map_filter_simps)

lemma next_entry_map_Some:
  "next_entry (map Some e) pos = (if pos < length e then Some (pos, e ! pos) else None)"
proof (induction e arbitrary: pos)
  case Nil
  then show ?case by simp
next
  case (Cons kv e)
  then show ?case by (cases pos) simp_all
qed

text \<open>A loop that meets no key of the rename table walks the whole table and leaves it
  as it was.\<close>

lemma canon_loop_no_key:
  assumes "\<forall>k\<in>set (d_keys e). d_get m k = None"
    and "pos + len = length e"
  shows "canon_loop m (length e) \<lparr>entries = map Some e, usable = u\<rparr> pos len =
         Inr \<lparr>entries = map Some e, usable = u\<rparr>"
  using assms(2)
proof (induction len arbitrary: pos)
  case 0
  then show ?case
    by (subst canon_loop.simps) (simp add: live_map_Some next_entry_map_Some)
next
  case (Suc len)
  then have lt: "pos < length e" by simp
  obtain k v where kv: "e ! pos = (k, v)" by (cases "e ! pos")
  from lt have "fst (e ! pos) \<in> set (d_keys e)"
    by (simp add: d_keys_def)
  with assms(1) kv have none: "d_get m k = None" by auto
  have "canon_loop m (length e) \<lparr>entries = map Some e, usable = u\<rparr> pos (Suc len) =
        canon_loop m (length e) \<lparr>entries = map Some e, usable = u\<rparr> (Suc pos) len"
    using lt none kv
    by (subst canon_loop.simps) (simp add: live_map_Some next_entry_map_Some)
  also have "\<dots> = Inr \<lparr>entries = map Some e, usable = u\<rparr>"
    using Suc by simp
  finally show ?case .
qed

lemma canonicalize_attrs_no_key:
  "\<forall>k\<in>set (d_keys entry). d_get attr_map k = None \<Longrightarrow>
   canonicalize_attrs entry attr_map = Inr entry"
  by (simp add: canonicalize_attrs_def dict_of_items_def canon_loop_no_key live_map_Some)

lemma MAP_ATTRS_None:
  "k \<notin> {ascii ''department'', ascii ''comment'', ascii ''company'', ascii ''employeeID'',
          ascii ''thumbnailPhoto'', ascii ''streetaddress''} \<Longrightarrow> d_get MAP_ATTRS k = None"
  by (simp add: MAP_ATTRS_def d_get_def)

text \<open>
  C9. Applying the rename map to an entry that has none of the keys \<^verbatim>\<open>department\<close>,
  \<^verbatim>\<open>comment\<close>, \<^verbatim>\<open>company\<close>, \<^verbatim>\<open>employeeID\<close>, \<^verbatim>\<open>thumbnailPhoto\<close>,
  \<^verbatim>\<open>streetaddress\<close> returns the entry unchanged: same keys, same order, same values.
\<close>

theorem canonicalize_attrs_noop:
  assumes "set (d_keys entry) \<inter>
           {ascii ''department'', ascii ''comment'', ascii ''company'', ascii ''employeeID'',
            ascii ''thumbnailPhoto'', ascii ''streetaddress''} = {}"
  shows "canonicalize_attrs entry MAP_ATTRS = Inr entry"
proof (rule canonicalize_attrs_no_key, rule ballI)
  fix k
  assume "k \<in> set (d_keys entry)"
  with assms have "k \<notin> {ascii ''department'', ascii ''comment'', ascii ''company'',
      ascii ''employeeID'', ascii ''thumbnailPhoto'', ascii ''streetaddress''}"
    by blast
  then show "d_get MAP_ATTRS k = None"
    by (rule MAP_ATTRS_None)
qed

theorem canonicalize_attrs_noop_witness:
  "canonicalize_attrs
     [(ascii ''displayName'', [[0x41 :: 8 word]]), (ascii ''departmentNumber'', [[0x45]])]
     MAP_ATTRS
   = Inr [(ascii ''displayName'', [[0x41]]), (ascii ''departmentNumber'', [[0x45]])]"
  by (rule canonicalize_attrs_noop) (simp add: d_keys_def ascii_def)

section \<open>The Builder\<close>

subsection \<open>First appearance\<close>



lemma first_seen_Nil: "first_seen [] = []"
  by (simp add: first_seen_def)

lemma first_seen_snoc:
  "first_seen (xs @ [x]) = (if x \<in> set xs then first_seen xs else first_seen xs @ [x])"
  by (simp add: first_seen_def)

lemma set_first_seen: "set (first_seen xs) = set xs"
  by (simp add: first_seen_def)

lemma distinct_first_seen: "distinct (first_seen xs)"
  by (simp add: first_seen_def)

subsection \<open>Dictionary operations\<close>

lemma d_get_d_set: "d_get (d_set d k v) k' = (if k' = k then Some v else d_get d k')"
  by (simp add: d_get_def d_set_def update_conv')

lemma d_keys_d_set:
  "d_keys (d_set d k v) = (if k \<in> set (d_keys d) then d_keys d else d_keys d @ [k])"
  by (simp add: d_keys_def d_set_def update_keys)

lemma d_keys_setdefault_append:
  "d_keys (setdefault_append d k x) = (if k \<in> set (d_keys d) then d_keys d else d_keys d @ [k])"
  unfolding d_keys_def setdefault_append_def
  by (induction d) auto

lemma getitem_seq_setdefault_append:
  "getitem_seq (setdefault_append d k x) k' =
     (if k' = k then getitem_seq d k @ [x] else getitem_seq d k')"
  by (simp add: getitem_seq_def d_get_def setdefault_append_def map_of_map_default
      split: option.splits)

lemma d_get_None_iff: "d_get d k = None \<longleftrightarrow> k \<notin> set (d_keys d)"
  by (simp add: d_get_def d_keys_def map_of_eq_None_iff)

subsection \<open>The tables after one record\<close>

lemma display_name_add_record:
  "display_name (add_record org0 r) = d_set (display_name org0) (fst r) (p_display_name (snd r))"
  by (simp add: add_record_def Let_def)

lemma title_of_add_record:
  "title_of (add_record org0 r) = d_set (title_of org0) (fst r) (p_title (snd r))"
  by (simp add: add_record_def Let_def)

lemma reports_to_add_record:
  "reports_to (add_record org0 r) =
     (if p_mgr (snd r) \<noteq> [] then setdefault_append (reports_to org0) (p_mgr (snd r)) (fst r)
      else reports_to org0)"
  by (simp add: add_record_def Let_def)

lemma depts_add_record:
  "depts (add_record org0 r) =
     (if p_dept (snd r) \<noteq> [] then setdefault_append (depts org0) (p_dept (snd r)) (fst r)
      else depts org0)"
  by (simp add: add_record_def Let_def)

lemma build_Nil: "build [] = empty_org"
  by (simp add: build_def build_from_def)

lemma build_snoc: "build (recs @ [r]) = add_record (build recs) r"
  by (simp add: build_def build_from_def)

subsection \<open>The name and title tables\<close>

lemma d_get_display_name_build:
  "d_get (display_name (build recs)) dn = map_option p_display_name (map_of (rev recs) dn)"
proof (induction recs rule: rev_induct)
  case Nil
  then show ?case by (simp add: build_Nil empty_org_def d_get_def)
next
  case (snoc r recs)
  then show ?case
    by (cases r) (simp add: build_snoc display_name_add_record d_get_d_set)
qed

lemma d_get_title_of_build:
  "d_get (title_of (build recs)) dn = map_option p_title (map_of (rev recs) dn)"
proof (induction recs rule: rev_induct)
  case Nil
  then show ?case by (simp add: build_Nil empty_org_def d_get_def)
next
  case (snoc r recs)
  then show ?case
    by (cases r) (simp add: build_snoc title_of_add_record d_get_d_set)
qed

lemma d_keys_display_name_build: "d_keys (display_name (build recs)) = first_seen (map fst recs)"
proof (induction recs rule: rev_induct)
  case Nil
  then show ?case by (simp add: build_Nil empty_org_def d_keys_def first_seen_Nil)
next
  case (snoc r recs)
  then show ?case
    by (simp add: build_snoc display_name_add_record d_keys_d_set first_seen_snoc set_first_seen)
qed

lemma d_keys_title_of_build: "d_keys (title_of (build recs)) = first_seen (map fst recs)"
proof (induction recs rule: rev_induct)
  case Nil
  then show ?case by (simp add: build_Nil empty_org_def d_keys_def first_seen_Nil)
next
  case (snoc r recs)
  then show ?case
    by (simp add: build_snoc title_of_add_record d_keys_d_set first_seen_snoc set_first_seen)
qed

subsection \<open>The manager and department groups\<close>

lemma getitem_seq_reports_to_build:
  "m \<noteq> [] \<Longrightarrow>
   getitem_seq (reports_to (build recs)) m = map fst (filter (\<lambda>r. p_mgr (snd r) = m) recs)"
proof (induction recs rule: rev_induct)
  case Nil
  then show ?case by (simp add: build_Nil empty_org_def getitem_seq_def d_get_def)
next
  case (snoc r recs)
  then show ?case
    by (auto simp add: build_snoc reports_to_add_record getitem_seq_setdefault_append)
qed

lemma getitem_seq_depts_build:
  "d \<noteq> [] \<Longrightarrow>
   getitem_seq (depts (build recs)) d = map fst (filter (\<lambda>r. p_dept (snd r) = d) recs)"
proof (induction recs rule: rev_induct)
  case Nil
  then show ?case by (simp add: build_Nil empty_org_def getitem_seq_def d_get_def)
next
  case (snoc r recs)
  then show ?case
    by (auto simp add: build_snoc depts_add_record getitem_seq_setdefault_append)
qed

lemma d_keys_reports_to_build:
  "d_keys (reports_to (build recs)) =
     first_seen (filter (\<lambda>m. m \<noteq> []) (map (\<lambda>r. p_mgr (snd r)) recs))"
proof (induction recs rule: rev_induct)
  case Nil
  then show ?case by (simp add: build_Nil empty_org_def d_keys_def first_seen_Nil)
next
  case (snoc r recs)
  then show ?case
    by (simp add: build_snoc reports_to_add_record d_keys_setdefault_append first_seen_snoc
        set_first_seen)
qed

lemma d_keys_depts_build:
  "d_keys (depts (build recs)) =
     first_seen (filter (\<lambda>d. d \<noteq> []) (map (\<lambda>r. p_dept (snd r)) recs))"
proof (induction recs rule: rev_induct)
  case Nil
  then show ?case by (simp add: build_Nil empty_org_def d_keys_def first_seen_Nil)
next
  case (snoc r recs)
  then show ?case
    by (simp add: build_snoc depts_add_record d_keys_setdefault_append first_seen_snoc
        set_first_seen)
qed

subsection \<open>The loop of \<open>result_to_org\<close> builds from the normalized records\<close>

lemma org_entry_normalizer:
  "org_entry org0 dn entry =
     (case normalizer entry of Inl e \<Rightarrow> Inl e | Inr p \<Rightarrow> Inr (add_record org0 (dn, p)))"
  by (auto simp add: org_entry_def normalizer_def add_record_def Let_def split: sum.splits)

lemma org_loop_records_of:
  "org_loop org0 result =
     (case records_of result of Inl e \<Rightarrow> Inl e | Inr recs \<Rightarrow> Inr (build_from org0 recs))"
proof (induction org0 result rule: org_loop.induct)
  case (1 org0)
  then show ?case by (simp add: build_from_def)
next
  case (2 org0 entry result)
  then show ?case by simp
next
  case (3 org0 dn entry result)
  then show ?case
    by (simp add: org_entry_normalizer build_from_def split: sum.splits)
qed

lemma result_to_org_records_of:
  "records_of result = Inr recs \<Longrightarrow> result_to_org result None = Inr (build recs)"
  by (simp add: result_to_org_def org_loop_records_of build_def)

section \<open>Decoding\<close>



section \<open>The document\<close>

subsection \<open>Writing pieces\<close>

lemma write_all_append:
  "write_all ps = (t, None) \<Longrightarrow> write_all qs = (u, r) \<Longrightarrow> write_all (ps @ qs) = (t @ u, r)"
proof (induction ps arbitrary: t)
  case Nil
  then show ?case by simp
next
  case (Cons p ps)
  show ?case
  proof (cases p)
    case (Inl e)
    with Cons.prems show ?thesis by simp
  next
    case (Inr s)
    obtain t' r' where rest: "write_all ps = (t', r')" by (cases "write_all ps")
    with Cons.prems Inr have "r' = None" and "t = s @ t'" by auto
    with Cons.IH [of t'] Cons.prems(2) rest Inr show ?thesis by simp
  qed
qed

lemma write_all_concat:
  "\<forall>x\<in>set xs. write_all (f x) = (g x, None) \<Longrightarrow>
   write_all (concat (map f xs)) = (concat (map g xs), None)"
proof (induction xs)
  case Nil
  then show ?case by simp
next
  case (Cons x xs)
  then have "write_all (f x) = (g x, None)"
    and "write_all (concat (map f xs)) = (concat (map g xs), None)"
    by simp_all
  then show ?case by (simp add: write_all_append)
qed

subsection \<open>Node labels\<close>

lemma has_component_explode:
  "has_component L dn \<Longrightarrow> \<exists>c cs. explode_dn L dn = Inr (c # cs) \<and> first_component L dn = c"
  by (auto simp add: has_component_def first_component_def split: sum.splits list.splits)

lemma name_and_title_build:
  assumes "has_component L dn"
  shows "name_and_title L dn (display_name (build recs)) (title_of (build recs)) =
         Inr (node_label L recs dn)"
proof -
  from assms obtain c cs where c: "explode_dn L dn = Inr (c # cs)" "first_component L dn = c"
    using has_component_explode by blast
  then have ident: "dn_to_ident L dn = Inr c"
    by (simp add: dn_to_ident_def)
  show ?thesis
    by (cases "map_of (rev recs) dn")
      (simp_all add: name_and_title_def name_s_def title_s_def ident c node_label_def
        record_label_def d_get_display_name_build d_get_title_of_build nl_def)
qed

lemma node_label_distinct:
  assumes "distinct (map fst recs)" and "r \<in> set recs"
  shows "node_label L recs (fst r) = record_label (snd r)"
proof -
  from assms(1) have "distinct (map fst (rev recs))"
    by (simp add: rev_map [symmetric])
  moreover from assms(2) have "(fst r, snd r) \<in> set (rev recs)" by simp
  ultimately have "map_of (rev recs) (fst r) = Some (snd r)"
    by (rule map_of_is_SomeI)
  then show ?thesis by (simp add: node_label_def)
qed

subsection \<open>The document of a record sequence\<close>

lemma write_member_line:
  "has_component L dn \<Longrightarrow>
   write_all (member_line L (build recs) dn) =
     (nl # ascii ''    '' @ dq # node_label L recs dn @ dq # ascii '';'', None)"
  by (simp add: member_line_def name_and_title_build)

lemma write_target_line:
  "has_component L dn \<Longrightarrow>
   write_all (target_line L (build recs) dn) =
     (nl # ascii ''    '' @ dq # node_label L recs dn @ [dq], None)"
  by (simp add: target_line_def name_and_title_build)

lemma write_cluster:
  assumes "d \<noteq> []" and "\<forall>r\<in>set recs. has_component L (fst r)"
  shows "write_all (cluster L (build recs) d) =
     (cluster_text L d (map (\<lambda>r. node_label L recs (fst r))
                          (filter (\<lambda>r. p_dept (snd r) = d) recs)), None)"
proof -
  let ?members = "map fst (filter (\<lambda>r. p_dept (snd r) = d) recs)"
  have members: "getitem_seq (depts (build recs)) d = ?members"
    using assms(1) by (rule getitem_seq_depts_build)
  have "\<forall>dn\<in>set ?members. write_all (member_line L (build recs) dn) =
      (nl # ascii ''    '' @ dq # node_label L recs dn @ dq # ascii '';'', None)"
    using assms(2) by (auto simp add: write_member_line)
  then have lines: "write_all (concat (map (member_line L (build recs)) ?members)) =
      (concat (map (\<lambda>dn. nl # ascii ''    '' @ dq # node_label L recs dn @ dq # ascii '';'')
                 ?members), None)"
    by (rule write_all_concat)
  have close: "write_all [Inr (nl # ascii ''  }'' @ nl # ascii ''  '')] =
      (nl # ascii ''  }'' @ nl # ascii ''  '', None)"
    by simp
  have body: "write_all (concat (map (member_line L (build recs)) ?members)
                         @ [Inr (nl # ascii ''  }'' @ nl # ascii ''  '')]) =
      (concat (map (\<lambda>dn. nl # ascii ''    '' @ dq # node_label L recs dn @ dq # ascii '';'')
                 ?members) @ nl # ascii ''  }'' @ nl # ascii ''  '', None)"
    using lines close by (rule write_all_append)
  show ?thesis
    using body by (simp add: cluster_def members cluster_text_def comp_def)
qed

lemma write_edge_group:
  assumes "m \<noteq> []" and "has_component L m" and "\<forall>r\<in>set recs. has_component L (fst r)"
  shows "write_all (edge_group L (build recs) m) =
     (group_text (node_label L recs m)
        (map (\<lambda>r. node_label L recs (fst r)) (filter (\<lambda>r. p_mgr (snd r) = m) recs)), None)"
proof -
  let ?reports = "map fst (filter (\<lambda>r. p_mgr (snd r) = m) recs)"
  have reports: "getitem_seq (reports_to (build recs)) m = ?reports"
    using assms(1) by (rule getitem_seq_reports_to_build)
  have "\<forall>dn\<in>set ?reports. write_all (target_line L (build recs) dn) =
      (nl # ascii ''    '' @ dq # node_label L recs dn @ [dq], None)"
    using assms(3) by (auto simp add: write_target_line)
  then have lines: "write_all (concat (map (target_line L (build recs)) ?reports)) =
      (concat (map (\<lambda>dn. nl # ascii ''    '' @ dq # node_label L recs dn @ [dq]) ?reports), None)"
    by (rule write_all_concat)
  have close: "write_all [Inr (nl # ascii ''  }'' @ nl # ascii ''  '')] =
      (nl # ascii ''  }'' @ nl # ascii ''  '', None)"
    by simp
  have body: "write_all (concat (map (target_line L (build recs)) ?reports)
                         @ [Inr (nl # ascii ''  }'' @ nl # ascii ''  '')]) =
      (concat (map (\<lambda>dn. nl # ascii ''    '' @ dq # node_label L recs dn @ [dq]) ?reports)
       @ nl # ascii ''  }'' @ nl # ascii ''  '', None)"
    using lines close by (rule write_all_append)
  show ?thesis
    using body
    by (simp add: edge_group_def reports group_text_def comp_def
        name_and_title_build [OF assms(2)])
qed

lemma write_render:
  assumes "\<forall>r\<in>set recs. has_component L (fst r)
             \<and> (p_mgr (snd r) \<noteq> [] \<longrightarrow> has_component L (p_mgr (snd r)))"
  shows "write_all (render L (build recs)) = (document L recs, None)"
proof -
  let ?ds = "first_seen (filter (\<lambda>d. d \<noteq> []) (map (\<lambda>r. p_dept (snd r)) recs))"
  let ?ms = "first_seen (filter (\<lambda>m. m \<noteq> []) (map (\<lambda>r. p_mgr (snd r)) recs))"
  from assms have ids: "\<forall>r\<in>set recs. has_component L (fst r)" by blast
  have "\<forall>d\<in>set ?ds. write_all (cluster L (build recs) d) =
      (cluster_text L d (map (\<lambda>r. node_label L recs (fst r))
                           (filter (\<lambda>r. p_dept (snd r) = d) recs)), None)"
    using ids by (auto simp add: set_first_seen write_cluster)
  then have clusters: "write_all (concat (map (cluster L (build recs)) ?ds)) =
      (clusters_text L recs, None)"
    unfolding clusters_text_def by (rule write_all_concat)
  have "\<forall>m\<in>set ?ms. write_all (edge_group L (build recs) m) =
      (group_text (node_label L recs m)
         (map (\<lambda>r. node_label L recs (fst r)) (filter (\<lambda>r. p_mgr (snd r) = m) recs)), None)"
    using assms ids by (auto simp add: set_first_seen write_edge_group)
  then have groups: "write_all (concat (map (edge_group L (build recs)) ?ms)) =
      (groups_text L recs, None)"
    unfolding groups_text_def by (rule write_all_concat)
  have foot: "write_all [Inr footer] = (footer, None)" by simp
  have tail: "write_all (concat (map (edge_group L (build recs)) ?ms) @ [Inr footer]) =
      (groups_text L recs @ footer, None)"
    using groups foot by (rule write_all_append)
  have rest: "write_all (concat (map (cluster L (build recs)) ?ds)
                @ concat (map (edge_group L (build recs)) ?ms) @ [Inr footer]) =
      (clusters_text L recs @ groups_text L recs @ footer, None)"
    using clusters tail by (rule write_all_append)
  show ?thesis
    by (simp add: render_def d_keys_depts_build d_keys_reports_to_build rest document_def)
qed

lemma chart_of_document:
  assumes "records_of result = Inr recs"
    and "\<forall>r\<in>set recs. has_component L (fst r)
           \<and> (p_mgr (snd r) \<noteq> [] \<longrightarrow> has_component L (p_mgr (snd r)))"
  shows "chart_of L result = (document L recs, None)"
  by (simp add: chart_of_def result_to_org_records_of [OF assms(1)] gen_orgchart_def
      write_render [OF assms(2)])

subsection \<open>The tables of a record sequence\<close>

lemma count_list_ids:
  "count_list (map fst (filter P recs)) x = length (filter (\<lambda>r. fst r = x \<and> P r) recs)"
  by (induction recs) auto

lemma filter_id_distinct:
  "distinct (map fst recs) \<Longrightarrow> r \<in> set recs \<Longrightarrow> P r \<Longrightarrow>
   filter (\<lambda>r'. fst r' = fst r \<and> P r') recs = [r]"
proof (induction recs)
  case Nil
  then show ?case by simp
next
  case (Cons a recs)
  show ?case
  proof (cases "a = r")
    case True
    with Cons.prems have "\<forall>r'\<in>set recs. fst r' \<noteq> fst r"
      by (auto simp add: image_iff)
    then have "filter (\<lambda>r'. fst r' = fst r \<and> P r') recs = []"
      by (simp add: filter_empty_conv)
    with True Cons.prems show ?thesis by simp
  next
    case False
    with Cons.prems have "r \<in> set recs" by simp
    with Cons.prems have "fst a \<noteq> fst r" by (auto simp add: image_iff)
    with Cons \<open>r \<in> set recs\<close> show ?thesis by simp
  qed
qed

lemma result_to_org_raises:
  "records_of result = Inl x \<Longrightarrow> result_to_org result None = Inl x"
  by (simp add: result_to_org_def org_loop_records_of)

lemma build_tables:
  "(\<forall>dn p. map_of (rev recs) dn = Some p \<longrightarrow>
      d_get (display_name (build recs)) dn = Some (p_display_name p)
      \<and> d_get (title_of (build recs)) dn = Some (p_title p))
   \<and> d_keys (display_name (build recs)) = first_seen (map fst recs)
   \<and> d_keys (title_of (build recs)) = first_seen (map fst recs)
   \<and> d_keys (reports_to (build recs)) =
       first_seen (filter (\<lambda>m. m \<noteq> []) (map (\<lambda>r. p_mgr (snd r)) recs))
   \<and> d_keys (depts (build recs)) =
       first_seen (filter (\<lambda>d. d \<noteq> []) (map (\<lambda>r. p_dept (snd r)) recs))
   \<and> (\<forall>m. m \<noteq> [] \<longrightarrow>
         getitem_seq (reports_to (build recs)) m =
         map fst (filter (\<lambda>r. p_mgr (snd r) = m) recs))
   \<and> (\<forall>d. d \<noteq> [] \<longrightarrow>
         getitem_seq (depts (build recs)) d = map fst (filter (\<lambda>r. p_dept (snd r) = d) recs))
   \<and> (\<forall>r\<in>set recs. p_mgr (snd r) \<noteq> [] \<longrightarrow>
         count_list (getitem_seq (reports_to (build recs)) (p_mgr (snd r))) (fst r) =
         length (filter (\<lambda>r'. fst r' = fst r \<and> p_mgr (snd r') = p_mgr (snd r)) recs))
   \<and> (distinct (map fst recs) \<longrightarrow>
        (\<forall>r\<in>set recs. p_mgr (snd r) \<noteq> [] \<longrightarrow>
           count_list (getitem_seq (reports_to (build recs)) (p_mgr (snd r))) (fst r) = 1))"
proof -
  let ?org = "build recs"
  have fields: "\<forall>dn p. map_of (rev recs) dn = Some p \<longrightarrow>
      d_get (display_name ?org) dn = Some (p_display_name p)
      \<and> d_get (title_of ?org) dn = Some (p_title p)"
    by (simp add: d_get_display_name_build d_get_title_of_build)
  have groups: "\<forall>m. m \<noteq> [] \<longrightarrow>
      getitem_seq (reports_to ?org) m = map fst (filter (\<lambda>r. p_mgr (snd r) = m) recs)"
    by (simp add: getitem_seq_reports_to_build)
  have clusters: "\<forall>d. d \<noteq> [] \<longrightarrow>
      getitem_seq (depts ?org) d = map fst (filter (\<lambda>r. p_dept (snd r) = d) recs)"
    by (simp add: getitem_seq_depts_build)
  have count: "\<forall>r\<in>set recs. p_mgr (snd r) \<noteq> [] \<longrightarrow>
      count_list (getitem_seq (reports_to ?org) (p_mgr (snd r))) (fst r) =
      length (filter (\<lambda>r'. fst r' = fst r \<and> p_mgr (snd r') = p_mgr (snd r)) recs)"
    by (simp add: getitem_seq_reports_to_build count_list_ids)
  have once: "distinct (map fst recs) \<longrightarrow>
      (\<forall>r\<in>set recs. p_mgr (snd r) \<noteq> [] \<longrightarrow>
         count_list (getitem_seq (reports_to ?org) (p_mgr (snd r))) (fst r) = 1)"
    by (simp add: getitem_seq_reports_to_build count_list_ids filter_id_distinct)
  from fields groups clusters count once show ?thesis
    by (intro conjI)
      (simp_all only: d_keys_display_name_build d_keys_title_of_build d_keys_reports_to_build
        d_keys_depts_build)
qed

text \<open>
  C3 (as amended). \<open>records_of result\<close> normalizes the entries of a search result one
  after the other. When the normalization of an entry raises, \<open>result_to_org\<close> raises
  the same exception, and it raises nothing else. When the entries normalize to the
  records \<open>recs\<close>, \<open>result_to_org\<close> returns an org model, with or without repeated
  identifiers, in which
  \<^item> \<open>display_name\<close> and \<open>title_of\<close> hold, for every identifier, the name and title of its
    last record (\<open>map_of (rev recs) dn\<close> is the last record of \<open>dn\<close>);
  \<^item> the keys of \<open>display_name\<close>, \<open>title_of\<close>, \<open>reports_to\<close> and \<open>depts\<close> stand in the
    order of their first appearance in the input;
  \<^item> the group of a manager \<open>m\<close> and the cluster of a department \<open>d\<close> list the
    identifiers of the records that name \<open>m\<close> or \<open>d\<close>, in input order;
  \<^item> an identifier is a target in the group of its manager \<open>m\<close> once for every record
    that carries this identifier and \<open>m\<close>: exactly once when no identifier is repeated.
\<close>

theorem builder_tables:
  "(case records_of result of
      Inl x \<Rightarrow> result_to_org result None = Inl x
    | Inr recs \<Rightarrow>
        (\<exists>org0. result_to_org result None = Inr org0
          \<and> (\<forall>dn p. map_of (rev recs) dn = Some p \<longrightarrow>
                d_get (display_name org0) dn = Some (p_display_name p)
                \<and> d_get (title_of org0) dn = Some (p_title p))
          \<and> d_keys (display_name org0) = first_seen (map fst recs)
          \<and> d_keys (title_of org0) = first_seen (map fst recs)
          \<and> d_keys (reports_to org0) =
              first_seen (filter (\<lambda>m. m \<noteq> []) (map (\<lambda>r. p_mgr (snd r)) recs))
          \<and> d_keys (depts org0) =
              first_seen (filter (\<lambda>d. d \<noteq> []) (map (\<lambda>r. p_dept (snd r)) recs))
          \<and> (\<forall>m. m \<noteq> [] \<longrightarrow>
                getitem_seq (reports_to org0) m =
                map fst (filter (\<lambda>r. p_mgr (snd r) = m) recs))
          \<and> (\<forall>d. d \<noteq> [] \<longrightarrow>
                getitem_seq (depts org0) d =
                map fst (filter (\<lambda>r. p_dept (snd r) = d) recs))
          \<and> (\<forall>r\<in>set recs. p_mgr (snd r) \<noteq> [] \<longrightarrow>
                count_list (getitem_seq (reports_to org0) (p_mgr (snd r))) (fst r) =
                length (filter (\<lambda>r'. fst r' = fst r \<and> p_mgr (snd r') = p_mgr (snd r)) recs))
          \<and> (distinct (map fst recs) \<longrightarrow>
               (\<forall>r\<in>set recs. p_mgr (snd r) \<noteq> [] \<longrightarrow>
                  count_list (getitem_seq (reports_to org0) (p_mgr (snd r))) (fst r) = 1))))"
proof (cases "records_of result")
  case (Inl x)
  then show ?thesis by (simp add: result_to_org_raises)
next
  case (Inr recs)
  then have "result_to_org result None = Inr (build recs)"
    by (rule result_to_org_records_of)
  with build_tables [of recs] have
    "\<exists>org0. result_to_org result None = Inr org0
          \<and> (\<forall>dn p. map_of (rev recs) dn = Some p \<longrightarrow>
                d_get (display_name org0) dn = Some (p_display_name p)
                \<and> d_get (title_of org0) dn = Some (p_title p))
          \<and> d_keys (display_name org0) = first_seen (map fst recs)
          \<and> d_keys (title_of org0) = first_seen (map fst recs)
          \<and> d_keys (reports_to org0) =
              first_seen (filter (\<lambda>m. m \<noteq> []) (map (\<lambda>r. p_mgr (snd r)) recs))
          \<and> d_keys (depts org0) =
              first_seen (filter (\<lambda>d. d \<noteq> []) (map (\<lambda>r. p_dept (snd r)) recs))
          \<and> (\<forall>m. m \<noteq> [] \<longrightarrow>
                getitem_seq (reports_to org0) m =
                map fst (filter (\<lambda>r. p_mgr (snd r) = m) recs))
          \<and> (\<forall>d. d \<noteq> [] \<longrightarrow>
                getitem_seq (depts org0) d =
                map fst (filter (\<lambda>r. p_dept (snd r) = d) recs))
          \<and> (\<forall>r\<in>set recs. p_mgr (snd r) \<noteq> [] \<longrightarrow>
                count_list (getitem_seq (reports_to org0) (p_mgr (snd r))) (fst r) =
                length (filter (\<lambda>r'. fst r' = fst r \<and> p_mgr (snd r') = p_mgr (snd r)) recs))
          \<and> (distinct (map fst recs) \<longrightarrow>
               (\<forall>r\<in>set recs. p_mgr (snd r) \<noteq> [] \<longrightarrow>
                  count_list (getitem_seq (reports_to org0) (p_mgr (snd r))) (fst r) = 1))"
    by (intro exI [of _ "build recs"] conjI) blast+
  with Inr show ?thesis by simp
qed

text \<open>
  The result \<open>repeated\<close>: its first entry has the attribute names of the Active
  Directory schema, of which \<^verbatim>\<open>company\<close> is renamed.
\<close>

lemma repeated_records:
  "records_of repeated =
     Inr [(ascii ''cn=a'', person_of ''Alice'' ''Dev'' ''cn=b'' ''Eng''),
          (ascii ''cn=b'', person_of ''Bob'' ''Mgr'' [] []),
          (ascii ''cn=a'', person_of ''Alicia'' [] ''cn=b'' [])]"
  by code_simp

theorem builder_tables_witness:
  "\<exists>org0. result_to_org repeated None = Inr org0
     \<and> d_get (display_name org0) (ascii ''cn=a'') = Some (ascii ''Alicia'')
     \<and> d_get (title_of org0) (ascii ''cn=a'') = Some []
     \<and> d_keys (display_name org0) = [ascii ''cn=a'', ascii ''cn=b'']
     \<and> d_keys (depts org0) = [ascii ''Eng'']
     \<and> getitem_seq (reports_to org0) (ascii ''cn=b'') = [ascii ''cn=a'', ascii ''cn=a'']
     \<and> count_list (getitem_seq (reports_to org0) (ascii ''cn=b'')) (ascii ''cn=a'') = 2"
proof -
  let ?recs = "[(ascii ''cn=a'', person_of ''Alice'' ''Dev'' ''cn=b'' ''Eng''),
                (ascii ''cn=b'', person_of ''Bob'' ''Mgr'' [] []),
                (ascii ''cn=a'', person_of ''Alicia'' [] ''cn=b'' [])]"
  from builder_tables [of repeated] obtain org0 where
    run: "result_to_org repeated None = Inr org0" and
    fields: "\<forall>dn p. map_of (rev ?recs) dn = Some p \<longrightarrow>
          d_get (display_name org0) dn = Some (p_display_name p)
          \<and> d_get (title_of org0) dn = Some (p_title p)" and
    names: "d_keys (display_name org0) = first_seen (map fst ?recs)" and
    clusters: "d_keys (depts org0) =
        first_seen (filter (\<lambda>d. d \<noteq> []) (map (\<lambda>r. p_dept (snd r)) ?recs))" and
    groups: "\<forall>m. m \<noteq> [] \<longrightarrow>
          getitem_seq (reports_to org0) m = map fst (filter (\<lambda>r. p_mgr (snd r) = m) ?recs)"
    unfolding repeated_records sum.case by (elim exE conjE)
  have a: "d_get (display_name org0) (ascii ''cn=a'') = Some (ascii ''Alicia'')
           \<and> d_get (title_of org0) (ascii ''cn=a'') = Some []"
    using fields [rule_format, of "ascii ''cn=a''" "person_of ''Alicia'' [] ''cn=b'' []"]
    by (simp add: person_of_def ascii_def)
  have b: "d_keys (display_name org0) = [ascii ''cn=a'', ascii ''cn=b'']"
    using names by (simp add: first_seen_def ascii_def)
  have c: "d_keys (depts org0) = [ascii ''Eng'']"
    using clusters by (simp add: first_seen_def person_of_def ascii_def)
  have d: "getitem_seq (reports_to org0) (ascii ''cn=b'') = [ascii ''cn=a'', ascii ''cn=a'']"
    using groups [rule_format, of "ascii ''cn=b''"] by (simp add: person_of_def ascii_def)
  have e: "count_list (getitem_seq (reports_to org0) (ascii ''cn=b'')) (ascii ''cn=a'') = 2"
    by (simp add: d)
  from run a b c d e show ?thesis by blast
qed

text \<open>
  The same record twice: its identifier is a target of its manager's group twice. And an
  entry whose title is not UTF-8: \<open>result_to_org\<close> raises \<^verbatim>\<open>UnicodeDecodeError\<close>.
\<close>

theorem repeated_record_listed_twice:
  "result_to_org
     [(Some (ascii ''cn=a''), [(ascii ''manager'', [ascii_bytes ''cn=m''])]),
      (Some (ascii ''cn=a''), [(ascii ''manager'', [ascii_bytes ''cn=m''])])]
     None
   = Inr \<lparr>reports_to = [(ascii ''cn=m'', [ascii ''cn=a'', ascii ''cn=a''])],
          depts = [], dept_of = [],
          title_of = [(ascii ''cn=a'', [])],
          mgr_of = [(ascii ''cn=a'', ascii ''cn=m'')],
          display_name = [(ascii ''cn=a'', [])]\<rparr>
   \<and> result_to_org [(Some (ascii ''cn=a''), [(ascii ''title'', [[0xFF]])])] None
     = Inl UnicodeDecodeError"
  by code_simp

subsection \<open>Departments\<close>

text \<open>
  C7. For a search result whose entries normalize to records \<open>recs\<close> with no identifier
  repeated, \<open>result_to_org\<close> returns an org model in which
  \<^item> \<open>depts\<close> has every department once as a key, and every non-empty department of
    a record is a key: one cluster for each department string;
  \<^item> the members of the cluster of \<open>d\<close> are the identifiers of the records whose
    department is \<open>d\<close>, in input order;
  \<^item> the identifier of a record with an empty department is a member of no cluster.

  And the document says the same. When \<^verbatim>\<open>explode_dn\<close> returns a component for every
  identifier and every manager of the input (otherwise the renderer raises), the
  renderer returns, and what it has written is the header, then for each key \<open>d\<close> of
  \<open>depts\<close>, in this order, the cluster of \<open>d\<close>, then the edge groups and the footer. The
  cluster of \<open>d\<close> is \<open>cluster_text\<close>: the \<^verbatim>\<open>subgraph\<close> line with the cluster identifier
  of \<open>d\<close>, the label \<open>d\<close>, and one line for each record whose department is \<open>d\<close>, in
  input order, with the name and the title of this record. So two records with the same
  department are in the same cluster in their relative input order, and a record with
  an empty department has a line in no cluster.
\<close>

theorem department_grouping:
  assumes "records_of result = Inr recs" and "distinct (map fst recs)"
  shows "\<exists>org0. result_to_org result None = Inr org0
    \<and> distinct (d_keys (depts org0))
    \<and> (\<forall>r\<in>set recs. p_dept (snd r) \<noteq> [] \<longrightarrow> p_dept (snd r) \<in> set (d_keys (depts org0)))
    \<and> (\<forall>d. d \<noteq> [] \<longrightarrow>
          getitem_seq (depts org0) d = map fst (filter (\<lambda>r. p_dept (snd r) = d) recs))
    \<and> (\<forall>r\<in>set recs. p_dept (snd r) = [] \<longrightarrow>
          (\<forall>d\<in>set (d_keys (depts org0)). fst r \<notin> set (getitem_seq (depts org0) d)))
    \<and> ((\<forall>r\<in>set recs. has_component L (fst r)
            \<and> (p_mgr (snd r) \<noteq> [] \<longrightarrow> has_component L (p_mgr (snd r)))) \<longrightarrow>
         chart_of L result =
           (header @
            concat (map (\<lambda>d. cluster_text L d
                                (map (\<lambda>r. record_label (snd r))
                                   (filter (\<lambda>r. p_dept (snd r) = d) recs)))
                      (d_keys (depts org0))) @
            groups_text L recs @ footer, None))"
proof -
  let ?org = "build recs"
  have run: "result_to_org result None = Inr ?org"
    using assms(1) by (rule result_to_org_records_of)
  have keys: "distinct (d_keys (depts ?org))"
    by (simp add: d_keys_depts_build distinct_first_seen)
  have present: "\<forall>r\<in>set recs. p_dept (snd r) \<noteq> [] \<longrightarrow> p_dept (snd r) \<in> set (d_keys (depts ?org))"
    by (simp add: d_keys_depts_build set_first_seen)
  have members: "\<forall>d. d \<noteq> [] \<longrightarrow>
      getitem_seq (depts ?org) d = map fst (filter (\<lambda>r. p_dept (snd r) = d) recs)"
    by (simp add: getitem_seq_depts_build)
  have none: "\<forall>r\<in>set recs. p_dept (snd r) = [] \<longrightarrow>
      (\<forall>d\<in>set (d_keys (depts ?org)). fst r \<notin> set (getitem_seq (depts ?org) d))"
  proof (intro ballI impI)
    fix r d
    assume r: "r \<in> set recs" and empty: "p_dept (snd r) = []"
      and d: "d \<in> set (d_keys (depts ?org))"
    from d have "d \<noteq> []"
      by (auto simp add: d_keys_depts_build set_first_seen)
    show "fst r \<notin> set (getitem_seq (depts ?org) d)"
    proof
      assume "fst r \<in> set (getitem_seq (depts ?org) d)"
      with \<open>d \<noteq> []\<close> obtain r' where r': "r' \<in> set recs" "p_dept (snd r') = d" "fst r' = fst r"
        by (auto simp add: getitem_seq_depts_build)
      from assms(2) r r' have "r' = r"
        by (metis distinct_map inj_onD)
      with r' empty \<open>d \<noteq> []\<close> show False by simp
    qed
  qed
  have labels: "map (\<lambda>r. node_label L recs (fst r)) (filter P recs) =
                map (\<lambda>r. record_label (snd r)) (filter P recs)" for P
    using assms(2) by (simp add: node_label_distinct)
  have chart: "(\<forall>r\<in>set recs. has_component L (fst r)
            \<and> (p_mgr (snd r) \<noteq> [] \<longrightarrow> has_component L (p_mgr (snd r)))) \<longrightarrow>
         chart_of L result =
           (header @
            concat (map (\<lambda>d. cluster_text L d
                                (map (\<lambda>r. record_label (snd r))
                                   (filter (\<lambda>r. p_dept (snd r) = d) recs)))
                      (d_keys (depts ?org))) @
            groups_text L recs @ footer, None)"
    by (simp add: chart_of_document [OF assms(1)] document_def clusters_text_def labels
        d_keys_depts_build)
  from run keys present members none chart show ?thesis by blast
qed

lemma ascii_Nil: "ascii [] = []"
  by (simp add: ascii_def)

lemma ad_result_records:
  "records_of ad_result =
     Inr [(ascii ''cn=a'', person_of ''Alice'' ''Dev'' [] ''Eng''),
          (ascii ''cn=b'', person_of ''Bob'' ''Mgr'' [] ''Eng'')]"
  by code_simp

lemma explode_dn_plain_a: "explode_dn plain_lib (ascii ''cn=a'') = Inr [ascii ''a'']"
  by code_simp

lemma explode_dn_plain_b: "explode_dn plain_lib (ascii ''cn=b'') = Inr [ascii ''b'']"
  by code_simp

text \<open>
  Two entries with the attribute names of the Active Directory schema and the
  department \<^verbatim>\<open>Eng\<close>: both \<^verbatim>\<open>company\<close> and \<^verbatim>\<open>department\<close> are renamed, and the chart has
  one cluster with both records.
\<close>

theorem department_grouping_witness:
  "chart_of plain_lib ad_result =
     (header @
      nl # ascii ''  subgraph cluster_eng {'' @
      nl # ascii ''    label = '' @ dq # ascii ''Eng'' @ dq # ascii '';'' @
      nl # ascii ''    '' @ dq # ascii ''Alice'' @ nl # ascii ''Dev'' @ dq # ascii '';'' @
      nl # ascii ''    '' @ dq # ascii ''Bob'' @ nl # ascii ''Mgr'' @ dq # ascii '';'' @
      nl # ascii ''  }'' @
      nl # ascii ''  '' @
      footer, None)"
proof -
  let ?recs = "[(ascii ''cn=a'', person_of ''Alice'' ''Dev'' [] ''Eng''),
                (ascii ''cn=b'', person_of ''Bob'' ''Mgr'' [] ''Eng'')]"
  have ids: "distinct (map fst ?recs)"
    by (simp add: ascii_def)
  have ok: "\<forall>r\<in>set ?recs. has_component plain_lib (fst r)
            \<and> (p_mgr (snd r) \<noteq> [] \<longrightarrow> has_component plain_lib (p_mgr (snd r)))"
    by (simp add: has_component_def explode_dn_plain_a explode_dn_plain_b person_of_def ascii_Nil)
  from department_grouping [OF ad_result_records ids, of plain_lib] ok obtain org0 where
    run: "result_to_org ad_result None = Inr org0" and
    chart: "chart_of plain_lib ad_result =
           (header @
            concat (map (\<lambda>d. cluster_text plain_lib d
                                (map (\<lambda>r. record_label (snd r))
                                   (filter (\<lambda>r. p_dept (snd r) = d) ?recs)))
                      (d_keys (depts org0))) @
            groups_text plain_lib ?recs @ footer, None)"
    by blast
  have "result_to_org ad_result None = Inr (build ?recs)"
    using ad_result_records by (rule result_to_org_records_of)
  with run have "org0 = build ?recs" by simp
  then have keys: "d_keys (depts org0) = [ascii ''Eng'']"
    by (simp add: d_keys_depts_build first_seen_def person_of_def ascii_def)
  have slug: "snake_case plain_lib (ascii ''Eng'') = ascii ''eng''"
    by code_simp
  have groups: "groups_text plain_lib ?recs = []"
    by (simp add: groups_text_def person_of_def first_seen_def ascii_Nil)
  show ?thesis
    unfolding chart keys groups using slug
    by (simp add: cluster_text_def record_label_def person_of_def ascii_def)
qed

section \<open>The Normalizer\<close>









text \<open>
  The renaming pass raises when it changes the dict under its own iterator: at once
  when the canonical name is present as well, since the dict has lost an item, and at
  the end of the table when the renamed key, appended to the table, is met by the
  iterator after it has returned as many keys as the dict had at the start.
\<close>

lemma canonicalize_attrs_both_names:
  "canonicalize_attrs
     [(ascii ''department'', [ascii_bytes ''Eng'']),
      (ascii ''departmentNumber'', [ascii_bytes ''Ops''])]
     MAP_ATTRS = Inl RuntimeError"
  by code_simp

lemma canonicalize_attrs_rename:
  "canonicalize_attrs [(ascii ''department'', [ascii_bytes ''Eng''])] MAP_ATTRS
   = Inl RuntimeError"
  by code_simp

text \<open>
  An entry with five attributes, \<^verbatim>\<open>company\<close> and \<^verbatim>\<open>department\<close> the last two: the
  insertion of \<^verbatim>\<open>o\<close> finds the table full and rebuilds it, which moves \<^verbatim>\<open>department\<close>
  to the slot the iterator has just left. The pass returns, and \<^verbatim>\<open>department\<close> has
  not been renamed.
\<close>

lemma canonicalize_attrs_department_skipped:
  "canonicalize_attrs
     [(ascii ''displayName'', [ascii_bytes ''Alice'']),
      (ascii ''title'', [ascii_bytes ''Dev'']),
      (ascii ''manager'', [ascii_bytes ''cn=b'']),
      (ascii ''company'', [ascii_bytes ''Acme'']),
      (ascii ''department'', [ascii_bytes ''Eng''])]
     MAP_ATTRS
   = Inr [(ascii ''displayName'', [ascii_bytes ''Alice'']),
          (ascii ''title'', [ascii_bytes ''Dev'']),
          (ascii ''manager'', [ascii_bytes ''cn=b'']),
          (ascii ''department'', [ascii_bytes ''Eng'']),
          (ascii ''o'', [ascii_bytes ''Acme''])]"
  by code_simp

section \<open>Names and titles\<close>

text \<open>
  C1 (as amended). For an identifier \<open>dn\<close> on which \<^verbatim>\<open>explode_dn(dn, 1)\<close> returns the
  components \<open>c # cs\<close>, the displayed name is \<open>display_name[dn]\<close> whenever \<open>dn\<close> is a key of
  the table, an empty name included, and it is the first component \<open>c\<close> when \<open>dn\<close> is
  not a key. The displayed name is \<open>c\<close> exactly when \<open>dn\<close> is not a key or the name
  stored for \<open>dn\<close> is \<open>c\<close> itself. After \<open>result_to_org\<close>, \<open>dn\<close> is not a key exactly when
  no record of the input has this identifier.
\<close>

theorem name_resolution:
  assumes "explode_dn L dn = Inr (c # cs)"
  shows "(\<forall>n. d_get names dn = Some n \<longrightarrow> name_s L dn names = Inr n)
    \<and> (d_get names dn = None \<longrightarrow> name_s L dn names = Inr c)
    \<and> (name_s L dn names = Inr c \<longleftrightarrow> d_get names dn = None \<or> d_get names dn = Some c)
    \<and> (d_get (display_name (build recs)) dn = None \<longleftrightarrow> dn \<notin> fst ` set recs)"
proof -
  from assms have ident: "dn_to_ident L dn = Inr c"
    by (simp add: dn_to_ident_def)
  have known: "\<forall>n. d_get names dn = Some n \<longrightarrow> name_s L dn names = Inr n"
    by (simp add: name_s_def ident)
  have unknown: "d_get names dn = None \<longrightarrow> name_s L dn names = Inr c"
    by (simp add: name_s_def ident)
  have exactly: "name_s L dn names = Inr c \<longleftrightarrow> d_get names dn = None \<or> d_get names dn = Some c"
    by (cases "d_get names dn") (simp_all add: name_s_def ident)
  have absent: "d_get (display_name (build recs)) dn = None \<longleftrightarrow> dn \<notin> fst ` set recs"
    by (simp add: d_get_None_iff d_keys_display_name_build set_first_seen)
  from known unknown exactly absent show ?thesis by blast
qed

theorem name_resolution_witness:
  "name_s plain_lib (ascii ''cn=a'') [(ascii ''cn=a'', ascii ''Alice'')] = Inr (ascii ''Alice'')
   \<and> name_s plain_lib (ascii ''cn=a'') [] = Inr (ascii ''a'')"
  using name_resolution [OF explode_dn_plain_a, of "[(ascii ''cn=a'', ascii ''Alice'')]"]
    name_resolution [OF explode_dn_plain_a, of "[]"]
  by (simp add: d_get_def)

text \<open>
  A record whose display name is the empty string: the table holds the empty string for
  its identifier, and the name displayed is the empty string, not the first component
  of the identifier.
\<close>

theorem empty_display_name_rendered:
  "result_to_org
     [(Some (ascii ''cn=a''),
       [(ascii ''displayName'', [[]]), (ascii ''title'', [ascii_bytes ''Dev''])])]
     None
   = Inr \<lparr>reports_to = [], depts = [], dept_of = [],
          title_of = [(ascii ''cn=a'', ascii ''Dev'')],
          mgr_of = [],
          display_name = [(ascii ''cn=a'', [])]\<rparr>
   \<and> name_s plain_lib (ascii ''cn=a'') [(ascii ''cn=a'', [])] = Inr []
   \<and> dn_to_ident plain_lib (ascii ''cn=a'') = Inr (ascii ''a'')"
  by code_simp

text \<open>
  C5 (as amended). The displayed title is \<open>title_of[dn]\<close> whenever \<open>dn\<close> is a key of the
  title table, the empty string included, and the string \<^verbatim>\<open>(missing from database)\<close>
  when \<open>dn\<close> is not a key; it is the second line of the node label. The displayed title
  is this string exactly when \<open>dn\<close> is not a key or the title stored for \<open>dn\<close> is this
  very string. After \<open>result_to_org\<close>, \<open>dn\<close> is not a key exactly when no record of the
  input has this identifier.
\<close>

theorem title_resolution:
  "(\<forall>t. d_get titles dn = Some t \<longrightarrow> title_s dn titles = t)
   \<and> (d_get titles dn = None \<longrightarrow> title_s dn titles = ascii ''(missing from database)'')
   \<and> (title_s dn titles = ascii ''(missing from database)'' \<longleftrightarrow>
        d_get titles dn = None \<or> d_get titles dn = Some (ascii ''(missing from database)''))
   \<and> (\<forall>n. name_s L dn names = Inr n \<longrightarrow>
         name_and_title L dn names titles = Inr (n @ [nl] @ title_s dn titles))
   \<and> (d_get (title_of (build recs)) dn = None \<longleftrightarrow> dn \<notin> fst ` set recs)"
proof -
  have known: "\<forall>t. d_get titles dn = Some t \<longrightarrow> title_s dn titles = t"
    by (simp add: title_s_def)
  have unknown: "d_get titles dn = None \<longrightarrow> title_s dn titles = ascii ''(missing from database)''"
    by (simp add: title_s_def)
  have exactly: "title_s dn titles = ascii ''(missing from database)'' \<longleftrightarrow>
        d_get titles dn = None \<or> d_get titles dn = Some (ascii ''(missing from database)'')"
    by (cases "d_get titles dn") (simp_all add: title_s_def)
  have label: "\<forall>n. name_s L dn names = Inr n \<longrightarrow>
      name_and_title L dn names titles = Inr (n @ [nl] @ title_s dn titles)"
    by (simp add: name_and_title_def nl_def)
  have absent: "d_get (title_of (build recs)) dn = None \<longleftrightarrow> dn \<notin> fst ` set recs"
    by (simp add: d_get_None_iff d_keys_title_of_build set_first_seen)
  from known unknown exactly label absent show ?thesis by blast
qed

theorem title_resolution_witness:
  "title_s (ascii ''cn=a'') [(ascii ''cn=a'', [])] = []
   \<and> title_s (ascii ''cn=b'') [(ascii ''cn=a'', [])] = ascii ''(missing from database)''"
  using title_resolution [of "[(ascii ''cn=a'', [])]" "ascii ''cn=a''"]
    title_resolution [of "[(ascii ''cn=a'', [])]" "ascii ''cn=b''"]
  by (simp add: d_get_def ascii_def)

text \<open>
  A record whose title is the string \<^verbatim>\<open>(missing from database)\<close>: its identifier is a
  key of the title table, and the title displayed is this string.
\<close>

theorem sentinel_title_stored:
  "result_to_org
     [(Some (ascii ''cn=a''), [(ascii ''title'', [ascii_bytes ''(missing from database)''])])]
     None
   = Inr \<lparr>reports_to = [], depts = [], dept_of = [],
          title_of = [(ascii ''cn=a'', ascii ''(missing from database)'')],
          mgr_of = [],
          display_name = [(ascii ''cn=a'', [])]\<rparr>
   \<and> d_get [(ascii ''cn=a'', ascii ''(missing from database)'')] (ascii ''cn=a'')
       = Some (ascii ''(missing from database)'')
   \<and> title_s (ascii ''cn=a'') [(ascii ''cn=a'', ascii ''(missing from database)'')]
       = ascii ''(missing from database)''"
  by code_simp

section \<open>Properties of the renderer\<close>

subsection \<open>The empty model\<close>

text \<open>
  C8. For the empty search result every table of the org model is empty, and the renderer
  returns on this model, having written the header followed by the footer: no cluster,
  no edge group.
\<close>

theorem empty_input:
  "result_to_org [] None =
     Inr \<lparr>reports_to = [], depts = [], dept_of = [], title_of = [], mgr_of = [],
          display_name = []\<rparr>
   \<and> gen_orgchart L fh
       \<lparr>reports_to = [], depts = [], dept_of = [], title_of = [], mgr_of = [],
        display_name = []\<rparr>
     = (fh @ header @ footer, None)"
  by (simp add: result_to_org_def empty_org_def gen_orgchart_def render_def d_keys_def)

theorem empty_input_witness:
  "chart_of plain_lib [] = (header @ footer, None)"
  using empty_input [of plain_lib "[]"] by (simp add: chart_of_def)

subsection \<open>The document depends on what the renderer reads\<close>

lemma name_and_title_cong:
  assumes "d_get names1 dn = d_get names2 dn" and "d_get titles1 dn = d_get titles2 dn"
  shows "name_and_title L dn names1 titles1 = name_and_title L dn names2 titles2"
  by (simp only: name_and_title_def name_s_def title_s_def assms)

lemma render_cong:
  assumes "depts o1 = depts o2" and "reports_to o1 = reports_to o2"
    and "\<forall>dn. d_get (display_name o1) dn = d_get (display_name o2) dn"
    and "\<forall>dn. d_get (title_of o1) dn = d_get (title_of o2) dn"
  shows "render L o1 = render L o2"
proof -
  have label: "name_and_title L dn (display_name o1) (title_of o1) =
               name_and_title L dn (display_name o2) (title_of o2)" for dn
    by (rule name_and_title_cong) (simp_all add: assms(3,4))
  have member: "member_line L o1 = member_line L o2"
    by (rule ext) (simp add: member_line_def label)
  have target: "target_line L o1 = target_line L o2"
    by (rule ext) (simp add: target_line_def label)
  have clusters: "cluster L o1 = cluster L o2"
    by (rule ext) (simp add: cluster_def member assms(1))
  have groups: "edge_group L o1 = edge_group L o2"
    by (rule ext) (simp add: edge_group_def target label assms(2))
  show ?thesis
    by (simp add: render_def clusters groups assms(1,2))
qed

text \<open>
  Two calls of the renderer, each with its own output file, on org models that agree in
  all the renderer reads (the \<open>depts\<close> and \<open>reports_to\<close> sequences and the lookups in
  \<open>display_name\<close> and \<open>title_of\<close>): one writes \<open>doc\<close> and ends with \<open>r\<close> exactly when the
  other does.
\<close>

theorem gen_orgchart_reads:
  assumes "depts o1 = depts o2" and "reports_to o1 = reports_to o2"
    and "\<forall>dn. d_get (display_name o1) dn = d_get (display_name o2) dn"
    and "\<forall>dn. d_get (title_of o1) dn = d_get (title_of o2) dn"
  shows "gen_orgchart L fh1 o1 = (fh1 @ doc, r) \<longleftrightarrow> gen_orgchart L fh2 o2 = (fh2 @ doc, r)"
proof -
  have "render L o1 = render L o2"
    using assms by (rule render_cong)
  then show ?thesis
    by (cases "write_all (render L o2)") (simp add: gen_orgchart_def)
qed

theorem gen_orgchart_reads_witness:
  "gen_orgchart plain_lib [] scenario_org = (scenario_doc, None)
   \<and> gen_orgchart plain_lib (ascii ''// old'')
       (scenario_org\<lparr>dept_of := [], mgr_of := [],
                     display_name := rev (display_name scenario_org)\<rparr>)
     = (ascii ''// old'' @ scenario_doc, None)"
proof -
  let ?o2 = "scenario_org\<lparr>dept_of := [], mgr_of := [],
                           display_name := rev (display_name scenario_org)\<rparr>"
  have first: "gen_orgchart plain_lib [] scenario_org = ([] @ scenario_doc, None)"
    by code_simp
  have names: "\<forall>dn. d_get (display_name scenario_org) dn = d_get (display_name ?o2) dn"
    by (simp add: scenario_org_def d_get_def ascii_def)
  have "gen_orgchart plain_lib [] scenario_org = ([] @ scenario_doc, None) \<longleftrightarrow>
        gen_orgchart plain_lib (ascii ''// old'') ?o2 = (ascii ''// old'' @ scenario_doc, None)"
    using gen_orgchart_reads [of scenario_org ?o2 plain_lib "[]" scenario_doc None
        "ascii ''// old''"] names
    by simp
  with first show ?thesis by simp
qed

text \<open>The scenario: its org model and its chart.\<close>

lemma scenario_result: "result_to_org scenario None = Inr scenario_org"
  by code_simp

theorem scenario_chart: "chart_of plain_lib scenario = (scenario_doc, None)"
  by code_simp

text \<open>
  The renderer writes piece by piece. For a record whose identifier is the empty
  string, \<^verbatim>\<open>explode_dn\<close> returns no component and \<^verbatim>\<open>dn_to_ident\<close> raises
  \<^verbatim>\<open>IndexError\<close>: the file then holds the document up to the quote that opens the
  node label.
\<close>

theorem gen_orgchart_partial_output:
  "chart_of plain_lib
     [(Some [], [(ascii ''departmentNumber'', [ascii_bytes ''Eng''])])]
   = (header @
      nl # ascii ''  subgraph cluster_eng {'' @
      nl # ascii ''    label = '' @ dq # ascii ''Eng'' @ dq # ascii '';'' @
      nl # ascii ''    '' @ [dq],
      Some IndexError)"
  by code_simp

subsection \<open>Cluster identifiers\<close>

lemma runs_Cons_head: "\<exists>r rs. runs P (c # s) = (P c, r) # rs"
  by (cases "runs P s") auto

lemma replace_runs_keep:
  "P c \<Longrightarrow>
   concat (map (\<lambda>(w, r). if w then r else u) (runs P (c # s))) =
   c # concat (map (\<lambda>(w, r). if w then r else u) (runs P s))"
  by (cases "runs P s") auto

lemma replace_runs_drop:
  "\<not> P c \<Longrightarrow>
   concat (map (\<lambda>(w, r). if w then r else u) (runs P (c # s))) =
   u @ concat (map (\<lambda>(w, r). if w then r else u) (runs P (dropWhile (\<lambda>c. \<not> P c) s)))"
proof (induction s arbitrary: c)
  case Nil
  then show ?case by simp
next
  case (Cons d s)
  obtain r rs where head: "runs P (d # s) = (P d, r) # rs"
    using runs_Cons_head [of P d s] by blast
  show ?case
  proof (cases "P d")
    case True
    with Cons.prems head show ?thesis by simp
  next
    case False
    from Cons.prems False head
    have "concat (map (\<lambda>(w, r). if w then r else u) (runs P (c # d # s))) =
          concat (map (\<lambda>(w, r). if w then r else u) (runs P (d # s)))"
      by simp
    also have "\<dots> = u @ concat (map (\<lambda>(w, r). if w then r else u)
                                   (runs P (dropWhile (\<lambda>c. \<not> P c) s)))"
      using False by (rule Cons.IH)
    finally show ?thesis using False by simp
  qed
qed

lemma re_sub_plus_runs:
  "re_sub_plus (\<lambda>c. \<not> P c) u s = concat (map (\<lambda>(w, r). if w then r else u) (runs P s))"
proof (induction "\<lambda>c. \<not> P c" u s rule: re_sub_plus.induct)
  case (1 repl)
  then show ?case by simp
next
  case (2 repl c s)
  show ?case
  proof (cases "P c")
    case True
    with 2 show ?thesis by (simp add: replace_runs_keep del: runs.simps)
  next
    case False
    with 2 show ?thesis by (simp add: replace_runs_drop del: runs.simps)
  qed
qed

lemma py_strip_underscores: "py_strip (ascii ''_'') s = strip_underscores s"
proof -
  have "rev (dropWhile Q (rev t)) = take (length t - length (takeWhile Q (rev t))) t"
    for Q and t :: pystr
    by (simp add: dropWhile_eq_drop rev_drop)
  then show ?thesis
    by (simp add: py_strip_def strip_underscores_def Let_def ascii_def)
qed

text \<open>
  C6. For every department string, \<open>snake_case\<close> returns the cluster identifier of the
  specification.
\<close>

theorem snake_case_cluster_id: "snake_case L dept = cluster_id L dept"
  by (simp add: snake_case_def cluster_id_def replace_nonword_runs_def re_sub_plus_runs
      py_strip_underscores)

theorem snake_case_cluster_id_witness:
  "snake_case plain_lib (ascii ''  Eng & Ops_'') = ascii ''eng_ops''
   \<and> cluster_id plain_lib (ascii ''  Eng & Ops_'') = ascii ''eng_ops''"
proof -
  have "snake_case plain_lib (ascii ''  Eng & Ops_'') = ascii ''eng_ops''"
    by code_simp
  with snake_case_cluster_id [of plain_lib "ascii ''  Eng & Ops_''"] show ?thesis
    by simp
qed

text \<open>
  C10. \<open>snake_case\<close> is not injective: \<^verbatim>\<open>R&D\<close> and \<^verbatim>\<open>r d\<close> are different
  departments with the cluster identifier \<^verbatim>\<open>r_d\<close>, and the chart of two records with
  these departments has two clusters named \<^verbatim>\<open>cluster_r_d\<close>.
\<close>

theorem snake_case_collision:
  "ascii ''R&D'' \<noteq> ascii ''r d''
   \<and> snake_case L (ascii ''R&D'') = ascii ''r_d''
   \<and> snake_case L (ascii ''r d'') = ascii ''r_d''
   \<and> chart_of plain_lib collide =
       (header @
        nl # ascii ''  subgraph cluster_r_d {'' @
        nl # ascii ''    label = '' @ dq # ascii ''R&D'' @ dq # ascii '';'' @
        nl # ascii ''    '' @ dq # ascii ''Ann'' @ nl # ascii ''Dev'' @ dq # ascii '';'' @
        nl # ascii ''  }'' @
        nl # ascii ''  '' @
        nl # ascii ''  subgraph cluster_r_d {'' @
        nl # ascii ''    label = '' @ dq # ascii ''r d'' @ dq # ascii '';'' @
        nl # ascii ''    '' @ dq # ascii ''Ben'' @ nl # ascii ''Ops'' @ dq # ascii '';'' @
        nl # ascii ''  }'' @
        nl # ascii ''  '' @
        footer, None)"
proof -
  have distinct: "ascii ''R&D'' \<noteq> ascii ''r d''"
    by (simp add: ascii_def)
  have upper: "snake_case L (ascii ''R&D'') = ascii ''r_d''"
    by (simp add: snake_case_def ascii_def is_word_def ascii_isalnum_def py_strip_def py_lower_def)
  have lower: "snake_case L (ascii ''r d'') = ascii ''r_d''"
    by (simp add: snake_case_def ascii_def is_word_def ascii_isalnum_def py_strip_def py_lower_def)
  have chart: "chart_of plain_lib collide =
       (header @
        nl # ascii ''  subgraph cluster_r_d {'' @
        nl # ascii ''    label = '' @ dq # ascii ''R&D'' @ dq # ascii '';'' @
        nl # ascii ''    '' @ dq # ascii ''Ann'' @ nl # ascii ''Dev'' @ dq # ascii '';'' @
        nl # ascii ''  }'' @
        nl # ascii ''  '' @
        nl # ascii ''  subgraph cluster_r_d {'' @
        nl # ascii ''    label = '' @ dq # ascii ''r d'' @ dq # ascii '';'' @
        nl # ascii ''    '' @ dq # ascii ''Ben'' @ nl # ascii ''Ops'' @ dq # ascii '';'' @
        nl # ascii ''  }'' @
        nl # ascii ''  '' @
        footer, None)"
    by code_simp
  from distinct upper lower chart show ?thesis by blast
qed

end
